theory Spec2Isabelle
  imports Complex_Main "HOL-Library.Word" "HOL-Library.Sublist"
begin

section \<open>Python values used by \<^verbatim>\<open>blockchain.py\<close>\<close>

subsection \<open>Exceptions\<close>

text \<open>
  An exception is modelled by the first \<^verbatim>\<open>except\<close> clause of \<^verbatim>\<open>withdraw_usdt\<close> (or of
  \<^verbatim>\<open>wait_for_transaction\<close>) that its class matches, together with \<^verbatim>\<open>str(e)\<close>.
  \<^verbatim>\<open>OverflowError\<close> and \<^verbatim>\<open>ZeroDivisionError\<close> are the arithmetic errors the module's own
  float arithmetic can raise; \<^verbatim>\<open>OtherException\<close> is every other subclass of
  \<^verbatim>\<open>Exception\<close>. Classes outside \<^verbatim>\<open>Exception\<close> (\<^verbatim>\<open>KeyboardInterrupt\<close>,
  \<^verbatim>\<open>SystemExit\<close>) are signals of the interpreter, not results of a call, and are not
  modelled.
\<close>

datatype exn_class =
  ContractLogicError | ValueError | TransactionNotFound
  | OverflowError | ZeroDivisionError | OtherException

type_synonym exn = "exn_class \<times> string"

subsection \<open>Floats: IEEE 754 binary64, round to nearest, ties to even\<close>

text \<open>
  \<^verbatim>\<open>amount_usdt\<close>, the allowance and the balance are Python floats.
  \<open>Finite s m e\<close> is the number \<open>(-1)\<^sup>s \<sqdot> m \<sqdot> 2\<^sup>e\<close> (a double when \<open>m < 2\<^sup>5\<^sup>3\<close> and
  \<open>-1074 \<le> e \<le> 971\<close>); the sign is kept at zero, as the hardware does.
\<close>

datatype pyfloat = Finite bool nat int | Infinity bool | NaN

function bit_length :: "nat \<Rightarrow> nat" where
  "bit_length n = (if n = 0 then 0 else Suc (bit_length (n div 2)))"
  by pat_completeness auto
termination
  by (relation "measure id") auto

declare bit_length.simps [simp del]

definition round_half_even :: "nat \<Rightarrow> nat \<Rightarrow> nat" where
  "round_half_even n d =
     (let q = n div d; r = n mod d
      in if 2 * r < d then q
         else if d < 2 * r then q + 1
         else if even q then q else q + 1)"

text \<open>\<open>binade n d\<close> is \<open>\<lfloor>log\<^sub>2 (n / d)\<rfloor>\<close> for positive \<open>n\<close> and \<open>d\<close>.\<close>

definition binade :: "nat \<Rightarrow> nat \<Rightarrow> int" where
  "binade n d =
     (let k = int (bit_length n) - int (bit_length d)
      in if (if 0 \<le> k then d * 2 ^ nat k \<le> n else d \<le> n * 2 ^ nat (- k))
         then k else k - 1)"

text \<open>
  \<open>round_to_double s n d\<close> is the double nearest to \<open>(-1)\<^sup>s \<sqdot> n / d\<close> (\<open>d > 0\<close>): 53 bits
  of precision, gradual underflow below \<open>2\<^sup>-\<^sup>1\<^sup>0\<^sup>2\<^sup>2\<close>, and an infinity from \<open>2\<^sup>1\<^sup>0\<^sup>2\<^sup>4\<close> on.
\<close>

definition round_to_double :: "bool \<Rightarrow> nat \<Rightarrow> nat \<Rightarrow> pyfloat" where
  "round_to_double s n d =
     (if n = 0 then Finite s 0 0
      else
        let e = max (binade n d - 52) (- 1074);
            m = (if 0 \<le> e then round_half_even n (d * 2 ^ nat e)
                 else round_half_even (n * 2 ^ nat (- e)) d)
        in if 971 < e \<or> (e = 971 \<and> m = 2 ^ 53) then Infinity s else Finite s m e)"

text \<open>Conversion of a Python int to a float, as the mixed operations \<^verbatim>\<open>int * float\<close> do.\<close>

definition float_of_int :: "int \<Rightarrow> exn + pyfloat" where
  "float_of_int i =
     (case round_to_double (i < 0) (nat \<bar>i\<bar>) 1 of
        Infinity s \<Rightarrow> Inl (OverflowError, ''int too large to convert to float'')
      | x \<Rightarrow> Inr x)"

fun float_mul :: "pyfloat \<Rightarrow> pyfloat \<Rightarrow> pyfloat" where
  "float_mul (Finite s1 m1 e1) (Finite s2 m2 e2) =
     (let e = e1 + e2
      in if 0 \<le> e then round_to_double (s1 \<noteq> s2) (m1 * m2 * 2 ^ nat e) 1
         else round_to_double (s1 \<noteq> s2) (m1 * m2) (2 ^ nat (- e)))"
| "float_mul (Finite s1 m1 e1) (Infinity s2) = (if m1 = 0 then NaN else Infinity (s1 \<noteq> s2))"
| "float_mul (Infinity s1) (Finite s2 m2 e2) = (if m2 = 0 then NaN else Infinity (s1 \<noteq> s2))"
| "float_mul (Infinity s1) (Infinity s2) = Infinity (s1 \<noteq> s2)"
| "float_mul NaN y = NaN"
| "float_mul x NaN = NaN"

text \<open>\<^verbatim>\<open>x * n\<close> and \<^verbatim>\<open>n * x\<close> for a float \<open>x\<close> and an int \<open>n\<close>.\<close>

definition float_mul_int :: "pyfloat \<Rightarrow> int \<Rightarrow> exn + pyfloat" where
  "float_mul_int x n =
     (case float_of_int n of Inl err \<Rightarrow> Inl err | Inr y \<Rightarrow> Inr (float_mul x y))"

text \<open>\<^verbatim>\<open>int(x)\<close>: truncation towards zero.\<close>

fun int_of_float :: "pyfloat \<Rightarrow> exn + int" where
  "int_of_float (Finite s m e) =
     Inr ((if s then - 1 else 1) *
          (if 0 \<le> e then int m * 2 ^ nat e else int m div 2 ^ nat (- e)))"
| "int_of_float (Infinity s) = Inl (OverflowError, ''cannot convert float infinity to integer'')"
| "int_of_float NaN = Inl (ValueError, ''cannot convert float NaN to integer'')"

text \<open>\<^verbatim>\<open>a / b\<close> for ints: the correctly rounded quotient.\<close>

definition int_truediv :: "int \<Rightarrow> int \<Rightarrow> exn + pyfloat" where
  "int_truediv a b =
     (if b = 0 then Inl (ZeroDivisionError, ''division by zero'')
      else case round_to_double ((a < 0) \<noteq> (b < 0)) (nat \<bar>a\<bar>) (nat \<bar>b\<bar>) of
             Infinity s \<Rightarrow> Inl (OverflowError, ''integer division result too large for a float'')
           | x \<Rightarrow> Inr x)"

text \<open>\<^verbatim>\<open>x < y\<close>: false as soon as one side is a NaN.\<close>

definition signed_mantissa :: "bool \<Rightarrow> nat \<Rightarrow> int \<Rightarrow> int \<Rightarrow> int" where
  "signed_mantissa s m e e0 = (if s then - 1 else 1) * int m * 2 ^ nat (e - e0)"

fun float_lt :: "pyfloat \<Rightarrow> pyfloat \<Rightarrow> bool" where
  "float_lt (Finite s1 m1 e1) (Finite s2 m2 e2) =
     (signed_mantissa s1 m1 e1 (min e1 e2) < signed_mantissa s2 m2 e2 (min e1 e2))"
| "float_lt (Finite s1 m1 e1) (Infinity s2) = (\<not> s2)"
| "float_lt (Infinity s1) (Finite s2 m2 e2) = s1"
| "float_lt (Infinity s1) (Infinity s2) = (s1 \<and> \<not> s2)"
| "float_lt NaN y = False"
| "float_lt x NaN = False"

subsection \<open>Formatting\<close>

definition digit_char :: "nat \<Rightarrow> char" where
  "digit_char n = ''0123456789abcdef'' ! n"

function show_nat :: "nat \<Rightarrow> string" where
  "show_nat n =
     (if n < 10 then [digit_char n] else show_nat (n div 10) @ [digit_char (n mod 10)])"
  by pat_completeness auto
termination
  by (relation "measure id") auto

declare show_nat.simps [simp del]

text \<open>\<open>frac_digits p r\<close>: the last \<open>p\<close> decimal digits of \<open>r\<close>, zero padded.\<close>

fun frac_digits :: "nat \<Rightarrow> nat \<Rightarrow> string" where
  "frac_digits 0 r = []"
| "frac_digits (Suc p) r = frac_digits p (r div 10) @ [digit_char (r mod 10)]"

text \<open>
  \<open>fixed_point p s r\<close>: the number \<open>(-1)\<^sup>s \<sqdot> r / 10\<^sup>p\<close> written with \<open>p\<close> decimal places.
\<close>

definition fixed_point :: "nat \<Rightarrow> bool \<Rightarrow> nat \<Rightarrow> string" where
  "fixed_point p s r =
     (if s then ''-'' else []) @ show_nat (r div 10 ^ p) @ ''.'' @ frac_digits p (r mod 10 ^ p)"

text \<open>
  \<^verbatim>\<open>f"{x:.pf}"\<close> for \<open>p > 0\<close>: the exact binary value, correctly rounded to \<open>p\<close> places
  (ties to even). The source only uses \<open>p = 6\<close>.
\<close>

fun format_f :: "nat \<Rightarrow> pyfloat \<Rightarrow> string" where
  "format_f p (Finite s m e) =
     fixed_point p s
       (if 0 \<le> e then m * 2 ^ nat e * 10 ^ p
        else round_half_even (m * 10 ^ p) (2 ^ nat (- e)))"
| "format_f p (Infinity s) = (if s then ''-inf'' else ''inf'')"
| "format_f p NaN = ''nan''"

type_synonym bytes = "8 word list"

text \<open>\<^verbatim>\<open>HexBytes.hex()\<close>: two lower-case hexadecimal digits per byte.\<close>

definition hex :: "bytes \<Rightarrow> string" where
  "hex bs = concat (map (\<lambda>b. [digit_char (unat b div 16), digit_char (unat b mod 16)]) bs)"

section \<open>The chain client, the configuration and the manager\<close>

text \<open>
  \<^verbatim>\<open>config.py\<close> is not part of the sources: its constants are the fields of \<open>config\<close>.
  The decimals, the gas defaults and every quantity the chain returns (\<^verbatim>\<open>uint256\<close> values,
  nonces, gas) are natural numbers.
\<close>

record config =
  SPENDER_ADDRESS :: string
  USDT_ADDRESS :: string
  PRIVATE_KEY :: string
  DEFAULT_GAS_LIMIT :: nat
  DEFAULT_GAS_PRICE_GWEI :: nat
  USDT_DECIMALS :: nat

record receipt =
  status :: int

datatype contract_function = TransferFrom string string int

record tx_params =
  tx_from :: string
  tx_nonce :: nat
  tx_gas :: int
  tx_gasPrice :: int

record gas_query =
  q_from :: string
  q_to :: string
  q_data :: bytes

text \<open>
  The web3 client is an external collaborator: each of its operations is a field that
  gives the operation's outcome, a value or an exception, for the arguments of the call.
  Within one withdrawal every operation but the receipt lookup is called at most once
  with given arguments, so this covers every behaviour of the client; the receipt lookup
  is indexed by the number of the poll. \<open>'tx\<close> is the transaction dictionary that
  \<^verbatim>\<open>build_transaction\<close> returns.

  Time is read off the polls: \<open>lag k\<close> is the time in milliseconds that the \<open>k\<close>-th
  failed lookup took, on top of the two seconds of \<^verbatim>\<open>time.sleep(2)\<close>. The clock is thus
  monotonic, and the first test of the loop is taken at the start time.
\<close>

record 'tx chain =
  is_address :: "string \<Rightarrow> exn + bool"
  to_checksum_address :: "string \<Rightarrow> exn + string"
  allowance :: "string \<Rightarrow> string \<Rightarrow> exn + nat"
  balanceOf :: "string \<Rightarrow> exn + nat"
  gas_price :: "exn + nat"
  eth_estimate_gas :: "gas_query \<Rightarrow> exn + nat"
  get_transaction_count :: "string \<Rightarrow> exn + nat"
  transferFrom :: "string \<Rightarrow> string \<Rightarrow> int \<Rightarrow> exn + contract_function"
  encode_transaction_data :: "contract_function \<Rightarrow> exn + bytes"
  build_transaction :: "contract_function \<Rightarrow> tx_params \<Rightarrow> exn + 'tx"
  sign_transaction :: "'tx \<Rightarrow> string \<Rightarrow> exn + bytes"
  send_raw_transaction :: "bytes \<Rightarrow> exn + bytes"
  get_transaction_receipt :: "bytes \<Rightarrow> nat \<Rightarrow> exn + receipt"
  lag :: "nat \<Rightarrow> nat"

record 'tx blockchain_manager =
  w3 :: "'tx chain"
  my_address :: string

subsection \<open>Effects: a log of the client's operations, and exceptions\<close>

datatype event =
  IsAddress string
  | Allowance string string
  | BalanceOf string
  | GetTransactionCount string
  | EstimateGas
  | GasPrice
  | BuildTransaction
  | SignTransaction
  | SendRawTransaction bytes
  | GetTransactionReceipt bytes

type_synonym 'a io = "event list \<Rightarrow> (exn + 'a) \<times> event list"

definition io_return :: "'a \<Rightarrow> 'a io" where
  "io_return x = (\<lambda>lg. (Inr x, lg))"

text \<open>A computation without an operation of the client: it returns or raises.\<close>

definition io_pure :: "exn + 'a \<Rightarrow> 'a io" where
  "io_pure r = (\<lambda>lg. (r, lg))"

text \<open>An operation of the client: it is logged, then it returns or raises.\<close>

definition io_call :: "event \<Rightarrow> exn + 'a \<Rightarrow> 'a io" where
  "io_call ev r = (\<lambda>lg. (r, lg @ [ev]))"

definition io_bind :: "'a io \<Rightarrow> ('a \<Rightarrow> 'b io) \<Rightarrow> 'b io" where
  "io_bind m f =
     (\<lambda>lg. case m lg of (Inl err, lg') \<Rightarrow> (Inl err, lg') | (Inr x, lg') \<Rightarrow> f x lg')"

text \<open>\<^verbatim>\<open>try: m except Exception as e: h e\<close>\<close>

definition io_try :: "'a io \<Rightarrow> (exn \<Rightarrow> 'a io) \<Rightarrow> 'a io" where
  "io_try m h =
     (\<lambda>lg. case m lg of (Inl err, lg') \<Rightarrow> h err lg' | (Inr x, lg') \<Rightarrow> (Inr x, lg'))"

section \<open>The methods of \<^verbatim>\<open>BlockchainManager\<close>\<close>

definition validate_address :: "'tx blockchain_manager \<Rightarrow> string \<Rightarrow> bool io" where
  "validate_address self address =
     io_try (io_call (IsAddress address) (is_address (w3 self) address))
       (\<lambda>err. io_return False)"

definition get_usdt_balance ::
  "config \<Rightarrow> 'tx blockchain_manager \<Rightarrow> string \<Rightarrow> pyfloat option io" where
  "get_usdt_balance cfg self address =
     io_try
       (io_bind (io_pure (to_checksum_address (w3 self) address)) (\<lambda>checksum_address.
        io_bind (io_call (BalanceOf checksum_address) (balanceOf (w3 self) checksum_address))
          (\<lambda>balance_wei.
        io_bind (io_pure (int_truediv (int balance_wei) (10 ^ USDT_DECIMALS cfg))) (\<lambda>balance_usdt.
        io_return (Some balance_usdt)))))
       (\<lambda>err. io_return None)"

text \<open>\<^verbatim>\<open>get_allowance(owner)\<close>: the spender is left to its default, \<^verbatim>\<open>SPENDER_ADDRESS\<close>.\<close>

definition get_allowance ::
  "config \<Rightarrow> 'tx blockchain_manager \<Rightarrow> string \<Rightarrow> pyfloat option io" where
  "get_allowance cfg self owner =
     io_try
       (io_bind (io_pure (to_checksum_address (w3 self) owner)) (\<lambda>checksum_owner.
        io_bind (io_pure (to_checksum_address (w3 self) (SPENDER_ADDRESS cfg))) (\<lambda>checksum_spender.
        io_bind (io_call (Allowance checksum_owner checksum_spender)
                   (allowance (w3 self) checksum_owner checksum_spender)) (\<lambda>allowance_wei.
        io_bind (io_pure (int_truediv (int allowance_wei) (10 ^ USDT_DECIMALS cfg)))
          (\<lambda>allowance_usdt.
        io_return (Some allowance_usdt))))))
       (\<lambda>err. io_return None)"

text \<open>The float literal \<^verbatim>\<open>1.2\<close>: the double \<open>5404319552844595 \<sqdot> 2\<^sup>-\<^sup>5\<^sup>2\<close>.\<close>

definition float_1_2 :: pyfloat where
  "float_1_2 = Finite False 5404319552844595 (- 52)"

text \<open>\<^verbatim>\<open>w3.to_wei(n, "gwei")\<close> for a whole number of gwei.\<close>

definition to_wei_gwei :: "nat \<Rightarrow> int" where
  "to_wei_gwei n = int n * 1000000000"

definition get_gas_price :: "config \<Rightarrow> 'tx blockchain_manager \<Rightarrow> int io" where
  "get_gas_price cfg self =
     io_try
       (io_bind (io_call GasPrice (gas_price (w3 self))) (\<lambda>current_gas_price.
        io_bind (io_pure (float_mul_int float_1_2 (int current_gas_price))) (\<lambda>x.
        io_pure (int_of_float x))))
       (\<lambda>err. io_return (to_wei_gwei (DEFAULT_GAS_PRICE_GWEI cfg)))"

definition estimate_gas ::
  "config \<Rightarrow> 'tx blockchain_manager \<Rightarrow> gas_query \<Rightarrow> int io" where
  "estimate_gas cfg self transaction =
     io_try
       (io_bind (io_call EstimateGas (eth_estimate_gas (w3 self) transaction)) (\<lambda>estimated.
        io_bind (io_pure (float_mul_int float_1_2 (int estimated))) (\<lambda>x.
        io_pure (int_of_float x))))
       (\<lambda>err. io_return (int (DEFAULT_GAS_LIMIT cfg)))"

text \<open>
  The loop of \<^verbatim>\<open>wait_for_transaction\<close>: \<open>k\<close> polls have failed and \<open>elapsed\<close>
  milliseconds have passed since \<^verbatim>\<open>start_time\<close>. The timeout is in seconds.
\<close>

function poll_receipt ::
  "'tx blockchain_manager \<Rightarrow> bytes \<Rightarrow> nat \<Rightarrow> nat \<Rightarrow> nat \<Rightarrow> receipt option io" where
  "poll_receipt self tx_hash timeout k elapsed lg =
     (if elapsed < timeout * 1000 then
        (case get_transaction_receipt (w3 self) tx_hash k of
           Inr rcpt \<Rightarrow> (Inr (Some rcpt), lg @ [GetTransactionReceipt tx_hash])
         | Inl err \<Rightarrow>
             if fst err = TransactionNotFound
             then poll_receipt self tx_hash timeout (Suc k) (elapsed + 2000 + lag (w3 self) k)
                    (lg @ [GetTransactionReceipt tx_hash])
             else (Inl err, lg @ [GetTransactionReceipt tx_hash]))
      else (Inr None, lg))"
  by pat_completeness auto
termination
  by (relation "measure (\<lambda>(self, tx_hash, timeout, k, elapsed, lg). timeout * 1000 - elapsed)") auto

declare poll_receipt.simps [simp del]

definition wait_for_transaction ::
  "'tx blockchain_manager \<Rightarrow> bytes \<Rightarrow> nat \<Rightarrow> receipt option io" where
  "wait_for_transaction self tx_hash timeout =
     io_try (poll_receipt self tx_hash timeout 0 0) (\<lambda>err. io_return None)"

text \<open>The three \<^verbatim>\<open>except\<close> clauses of \<^verbatim>\<open>withdraw_usdt\<close>, in their order.\<close>

definition withdraw_except :: "exn \<Rightarrow> (bool \<times> string) io" where
  "withdraw_except err =
     (if fst err = ContractLogicError
      then io_return (False, ''Smart contract error: '' @ snd err)
      else if fst err = ValueError
      then io_return (False, ''Transaction error: '' @ snd err)
      else io_return (False, ''Unexpected error: '' @ snd err))"

text \<open>
  The success message. The check mark and the link sign are written as their UTF-8 bytes.
\<close>

definition success_message :: "pyfloat \<Rightarrow> string \<Rightarrow> string" where
  "success_message amount_usdt bsc_link =
     [CHR 0xE2, CHR 0x9C, CHR 0x85] @ '' Successfully withdrawn '' @ format_f 6 amount_usdt
       @ '' USDT'' @ [CHR 0x0A] @ [CHR 0xF0, CHR 0x9F, CHR 0x94, CHR 0x97]
       @ '' Transaction: '' @ bsc_link"

text \<open>\<^verbatim>\<open>int(amount_usdt * (10 ** USDT_DECIMALS))\<close>\<close>

definition to_amount_wei :: "config \<Rightarrow> pyfloat \<Rightarrow> exn + int" where
  "to_amount_wei cfg amount_usdt =
     (case float_mul_int amount_usdt (10 ^ USDT_DECIMALS cfg) of
        Inl err \<Rightarrow> Inl err
      | Inr scaled \<Rightarrow> int_of_float scaled)"

text \<open>The body of the \<^verbatim>\<open>try\<close> statement of \<^verbatim>\<open>withdraw_usdt\<close>.\<close>

definition withdraw_try ::
  "config \<Rightarrow> 'tx blockchain_manager \<Rightarrow> string \<Rightarrow> pyfloat \<Rightarrow> (bool \<times> string) io" where
  "withdraw_try cfg self from_wallet0 amount_usdt =
       (io_bind (validate_address self from_wallet0) (\<lambda>valid.
        if \<not> valid then io_return (False, ''Invalid wallet address'') else
        io_bind (io_pure (to_checksum_address (w3 self) from_wallet0)) (\<lambda>from_wallet.
        io_bind (io_pure (to_amount_wei cfg amount_usdt)) (\<lambda>amount_wei.
        io_bind (get_allowance cfg self from_wallet) (\<lambda>allowance_opt.
        case allowance_opt of
          None \<Rightarrow> io_return (False, ''Failed to check allowance'')
        | Some allowance_usdt \<Rightarrow>
        if float_lt allowance_usdt amount_usdt
        then io_return (False, ''Insufficient allowance. Available: ''
               @ format_f 6 allowance_usdt @ '' USDT'') else
        io_bind (get_usdt_balance cfg self from_wallet) (\<lambda>balance_opt.
        case balance_opt of
          None \<Rightarrow> io_return (False, ''Failed to check wallet balance'')
        | Some balance \<Rightarrow>
        if float_lt balance amount_usdt
        then io_return (False, ''Insufficient balance. Available: ''
               @ format_f 6 balance @ '' USDT'') else
        io_bind (io_call (GetTransactionCount (my_address self))
                   (get_transaction_count (w3 self) (my_address self))) (\<lambda>nonce.
        io_bind (io_pure (transferFrom (w3 self) from_wallet (my_address self) amount_wei))
          (\<lambda>transfer.
        io_bind (io_pure (transferFrom (w3 self) from_wallet (my_address self) amount_wei))
          (\<lambda>transfer'.
        io_bind (io_pure (encode_transaction_data (w3 self) transfer')) (\<lambda>data.
        io_bind (estimate_gas cfg self
                   \<lparr>q_from = my_address self, q_to = USDT_ADDRESS cfg, q_data = data\<rparr>) (\<lambda>gas.
        io_bind (get_gas_price cfg self) (\<lambda>gasPrice.
        io_bind (io_call BuildTransaction
                   (build_transaction (w3 self) transfer
                      \<lparr>tx_from = my_address self, tx_nonce = nonce, tx_gas = gas,
                       tx_gasPrice = gasPrice\<rparr>)) (\<lambda>transaction.
        io_bind (io_call SignTransaction
                   (sign_transaction (w3 self) transaction (PRIVATE_KEY cfg))) (\<lambda>raw_transaction.
        io_bind (io_call (SendRawTransaction raw_transaction)
                   (send_raw_transaction (w3 self) raw_transaction)) (\<lambda>tx_hash.
        io_bind (wait_for_transaction self tx_hash 120) (\<lambda>tx_receipt.
        case tx_receipt of
          None \<Rightarrow> io_return (False, ''Transaction failed or was reverted'')
        | Some rcpt \<Rightarrow>
            if status rcpt = 1
            then io_return (True,
                   success_message amount_usdt (''https://bscscan.com/tx/'' @ hex tx_hash))
            else io_return (False, ''Transaction failed or was reverted'')))))))))))))))))"

definition withdraw_usdt ::
  "config \<Rightarrow> 'tx blockchain_manager \<Rightarrow> string \<Rightarrow> pyfloat \<Rightarrow> (bool \<times> string) io" where
  "withdraw_usdt cfg self from_wallet amount_usdt =
     io_try (withdraw_try cfg self from_wallet amount_usdt) withdraw_except"

text \<open>The raw transactions that a log shows as submitted to the network.\<close>

fun broadcasts :: "event list \<Rightarrow> bytes list" where
  "broadcasts [] = []"
| "broadcasts (SendRawTransaction raw # evs) = raw # broadcasts evs"
| "broadcasts (ev # evs) = broadcasts evs"

section \<open>Auxiliary notions for the statements\<close>

text \<open>The exact value of a finite float, as a rational number.\<close>

fun float_value :: "pyfloat \<Rightarrow> rat" where
  "float_value (Finite s m e) =
     (if s then - 1 else 1) * of_nat m * (if 0 \<le> e then 2 ^ nat e else 1 / 2 ^ nat (- e))"
| "float_value (Infinity s) = 0"
| "float_value NaN = 0"

text \<open>What a computation returns and logs when it is started on the empty log.\<close>

definition returned :: "'a io \<Rightarrow> 'a" where
  "returned m = projr (fst (m []))"

definition emitted :: "'a io \<Rightarrow> event list" where
  "emitted m = snd (m [])"

subsection \<open>A configuration and a chain for concrete runs\<close>

text \<open>
  The token has 18 decimals, as USDT has on the BNB chain. The source wallet has granted
  500 tokens and holds 1000; the receipt is found at the fourth poll, with success status.
\<close>

definition example_config :: config where
  "example_config =
     \<lparr>SPENDER_ADDRESS = ''0xSpender'', USDT_ADDRESS = ''0xToken'', PRIVATE_KEY = ''key'',
      DEFAULT_GAS_LIMIT = 100000, DEFAULT_GAS_PRICE_GWEI = 5, USDT_DECIMALS = 18\<rparr>"

definition example_chain :: "unit chain" where
  "example_chain =
     \<lparr>is_address = (\<lambda>a. Inr (a = ''0xSource'')),
      to_checksum_address = (\<lambda>a. Inr a),
      allowance = (\<lambda>owner spender. Inr (500 * 10 ^ 18)),
      balanceOf = (\<lambda>owner. Inr (1000 * 10 ^ 18)),
      gas_price = Inr 5000000000,
      eth_estimate_gas = (\<lambda>q. Inr 50000),
      get_transaction_count = (\<lambda>a. Inr 7),
      transferFrom = (\<lambda>a b n. Inr (TransferFrom a b n)),
      encode_transaction_data = (\<lambda>c. Inr [0x23, 0xb8]),
      build_transaction = (\<lambda>c p. Inr ()),
      sign_transaction = (\<lambda>t k. Inr [0xf8, 0x6b]),
      send_raw_transaction = (\<lambda>raw. Inr [0xab, 0xcd]),
      get_transaction_receipt =
        (\<lambda>h k. if k < 3 then Inl (TransactionNotFound, ''not found'')
               else Inr \<lparr>status = 1\<rparr>),
      lag = (\<lambda>k. 10)\<rparr>"

definition example_manager :: "unit blockchain_manager" where
  "example_manager = \<lparr>w3 = example_chain, my_address = ''0xAgent''\<rparr>"

text \<open>The same manager on a chain that answers one operation differently.\<close>

definition with_chain ::
  "(unit chain \<Rightarrow> unit chain) \<Rightarrow> unit blockchain_manager" where
  "with_chain f = example_manager\<lparr>w3 := f example_chain\<rparr>"

text \<open>No receipt is ever found: the poller runs into its timeout.\<close>

definition timeout_manager :: "unit blockchain_manager" where
  "timeout_manager =
     with_chain (\<lambda>c. c\<lparr>get_transaction_receipt :=
       (\<lambda>h k. Inl (TransactionNotFound, ''not found''))\<rparr>)"

text \<open>The receipt is found at once, with failure status.\<close>

definition reverted_manager :: "unit blockchain_manager" where
  "reverted_manager =
     with_chain (\<lambda>c. c\<lparr>get_transaction_receipt := (\<lambda>h k. Inr \<lparr>status = 0\<rparr>)\<rparr>)"

text \<open>The third receipt lookup fails with an error of the connection.\<close>

definition failing_lookup_manager :: "unit blockchain_manager" where
  "failing_lookup_manager =
     with_chain (\<lambda>c. c\<lparr>get_transaction_receipt :=
       (\<lambda>h k. if k < 2 then Inl (TransactionNotFound, ''not found'')
              else Inl (OtherException, ''connection reset''))\<rparr>)"

text \<open>The network rejects the broadcast.\<close>

definition rejecting_manager :: "unit blockchain_manager" where
  "rejecting_manager =
     with_chain (\<lambda>c. c\<lparr>send_raw_transaction := (\<lambda>raw. Inl (ValueError, ''nonce too low''))\<rparr>)"

text \<open>The allowance is 0.1234567 tokens; the balance is one base unit.\<close>

definition small_allowance_manager :: "unit blockchain_manager" where
  "small_allowance_manager =
     with_chain (\<lambda>c. c\<lparr>allowance := (\<lambda>owner spender. Inr 123456700000000000)\<rparr>)"

definition dust_balance_manager :: "unit blockchain_manager" where
  "dust_balance_manager = with_chain (\<lambda>c. c\<lparr>balanceOf := (\<lambda>owner. Inr 1)\<rparr>)"

text \<open>The allowance, or the balance, is one base unit short of one token.\<close>

definition near_allowance_manager :: "unit blockchain_manager" where
  "near_allowance_manager =
     with_chain (\<lambda>c. c\<lparr>allowance := (\<lambda>owner spender. Inr 999999999999999999)\<rparr>)"

definition near_balance_manager :: "unit blockchain_manager" where
  "near_balance_manager =
     with_chain (\<lambda>c. c\<lparr>balanceOf := (\<lambda>owner. Inr 999999999999999999)\<rparr>)"

text \<open>The gas-price query fails; the gas-price query answers a very large price.\<close>

definition offline_manager :: "unit blockchain_manager" where
  "offline_manager =
     with_chain (\<lambda>c. c\<lparr>gas_price := Inl (OtherException, [])\<rparr>)"

definition congested_manager :: "unit blockchain_manager" where
  "congested_manager = with_chain (\<lambda>c. c\<lparr>gas_price := Inr 3752999689475414\<rparr>)"

section \<open>Running computations\<close>

lemma io_return_run: "io_return x lg = (Inr x, lg)"
  by (simp add: io_return_def)

lemma io_pure_run: "io_pure r lg = (r, lg)"
  by (simp add: io_pure_def)

lemma io_call_run: "io_call ev r lg = (r, lg @ [ev])"
  by (simp add: io_call_def)

lemma io_bind_run:
  "io_bind m f lg =
     (case m lg of (Inl err, lg') \<Rightarrow> (Inl err, lg') | (Inr x, lg') \<Rightarrow> f x lg')"
  by (simp add: io_bind_def)

lemma io_try_run:
  "io_try m h lg =
     (case m lg of (Inl err, lg') \<Rightarrow> h err lg' | (Inr x, lg') \<Rightarrow> (Inr x, lg'))"
  by (simp add: io_try_def)

lemma if_run: "(if c then m else m') lg = (if c then m lg else m' (lg :: event list))"
  by simp

lemma case_option_run:
  "(case v of None \<Rightarrow> m | Some y \<Rightarrow> m' y) lg =
     (case v of None \<Rightarrow> m lg | Some y \<Rightarrow> m' y (lg :: event list))"
  by (simp split: option.split)

lemmas io_run =
  io_return_run io_pure_run io_call_run io_bind_run io_try_run if_run case_option_run

(* PROOFS *)

subsection \<open>The helper methods never raise\<close>

lemma validate_address_run:
  "validate_address self a lg = (Inr (is_address (w3 self) a = Inr True), lg @ [IsAddress a])"
  by (simp add: validate_address_def io_run split: sum.split)

lemma get_allowance_run:
  "get_allowance cfg self a lg =
     (Inr (returned (get_allowance cfg self a)), lg @ emitted (get_allowance cfg self a))"
  by (simp add: get_allowance_def io_run returned_def emitted_def split: sum.split)

lemma get_usdt_balance_run:
  "get_usdt_balance cfg self a lg =
     (Inr (returned (get_usdt_balance cfg self a)), lg @ emitted (get_usdt_balance cfg self a))"
  by (simp add: get_usdt_balance_def io_run returned_def emitted_def split: sum.split)

lemma get_gas_price_run:
  "get_gas_price cfg self lg = (Inr (returned (get_gas_price cfg self)), lg @ [GasPrice])"
  by (simp add: get_gas_price_def io_run returned_def split: sum.split)

lemma estimate_gas_run:
  "estimate_gas cfg self q lg = (Inr (returned (estimate_gas cfg self q)), lg @ [EstimateGas])"
  by (simp add: estimate_gas_def io_run returned_def split: sum.split)

lemma broadcasts_append: "broadcasts (xs @ ys) = broadcasts xs @ broadcasts ys"
  by (induction xs rule: broadcasts.induct) simp_all

lemma get_allowance_broadcasts: "broadcasts (emitted (get_allowance cfg self a)) = []"
  by (simp add: get_allowance_def io_run emitted_def split: sum.split)

lemma get_usdt_balance_broadcasts: "broadcasts (emitted (get_usdt_balance cfg self a)) = []"
  by (simp add: get_usdt_balance_def io_run emitted_def split: sum.split)

lemma get_allowance_returned:
  "returned (get_allowance cfg self owner) = Some allowance_usdt \<longleftrightarrow>
     (\<exists>checksum_owner checksum_spender allowance_wei.
        to_checksum_address (w3 self) owner = Inr checksum_owner \<and>
        to_checksum_address (w3 self) (SPENDER_ADDRESS cfg) = Inr checksum_spender \<and>
        allowance (w3 self) checksum_owner checksum_spender = Inr allowance_wei \<and>
        int_truediv (int allowance_wei) (10 ^ USDT_DECIMALS cfg) = Inr allowance_usdt)"
  by (simp add: get_allowance_def io_run returned_def split: sum.split)

lemma get_usdt_balance_returned:
  "returned (get_usdt_balance cfg self address) = Some balance_usdt \<longleftrightarrow>
     (\<exists>checksum_address balance_wei.
        to_checksum_address (w3 self) address = Inr checksum_address \<and>
        balanceOf (w3 self) checksum_address = Inr balance_wei \<and>
        int_truediv (int balance_wei) (10 ^ USDT_DECIMALS cfg) = Inr balance_usdt)"
  by (simp add: get_usdt_balance_def io_run returned_def split: sum.split)

subsection \<open>The polling loop\<close>

lemma poll_receipt_log_all:
  "\<forall>lg. poll_receipt self h t k el lg =
     (fst (poll_receipt self h t k el []), lg @ snd (poll_receipt self h t k el []))"
proof (induct self h t k el "dummy :: event list" rule: poll_receipt.induct)
  case (1 self h t k el dummy)
  show ?case
  proof (cases "el < t * 1000")
    case False
    then show ?thesis by (simp add: poll_receipt.simps)
  next
    case True
    show ?thesis
    proof (cases "get_transaction_receipt (w3 self) h k")
      case (Inr r)
      with True show ?thesis by (simp add: poll_receipt.simps)
    next
      case (Inl err)
      show ?thesis
      proof (cases "fst err = TransactionNotFound")
        case False
        with True Inl show ?thesis by (simp add: poll_receipt.simps)
      next
        case nf: True
        let ?el = "el + 2000 + lag (w3 self) k"
        have a: "poll_receipt self h t k el lg =
              poll_receipt self h t (Suc k) ?el (lg @ [GetTransactionReceipt h])" for lg
          using True Inl nf by (subst poll_receipt.simps) simp
        have b: "poll_receipt self h t (Suc k) ?el lg =
              (fst (poll_receipt self h t (Suc k) ?el []),
               lg @ snd (poll_receipt self h t (Suc k) ?el []))" for lg
          using 1 [OF True Inl nf] by blast
        show ?thesis
        proof
          fix lg
          show "poll_receipt self h t k el lg =
            (fst (poll_receipt self h t k el []), lg @ snd (poll_receipt self h t k el []))"
            unfolding a by (subst b, subst (2) b, subst (3) b) simp
        qed
      qed
    qed
  qed
qed

lemmas poll_receipt_log = poll_receipt_log_all [rule_format]

lemma poll_receipt_broadcasts_all:
  "\<forall>lg. broadcasts (snd (poll_receipt self h t k el lg)) = broadcasts lg"
proof (induct self h t k el "dummy :: event list" rule: poll_receipt.induct)
  case (1 self h t k el dummy)
  show ?case
  proof
    fix lg
    show "broadcasts (snd (poll_receipt self h t k el lg)) = broadcasts lg"
      using 1 by (subst poll_receipt.simps) (auto split: sum.splits simp: broadcasts_append)
  qed
qed

lemmas poll_receipt_broadcasts = poll_receipt_broadcasts_all [rule_format]

lemma wait_for_transaction_run:
  "wait_for_transaction self h t lg =
     (Inr (returned (wait_for_transaction self h t)), lg @ emitted (wait_for_transaction self h t))"
proof -
  obtain r l where p: "poll_receipt self h t 0 0 [] = (r, l)"
    by (cases "poll_receipt self h t 0 0 []")
  have q: "poll_receipt self h t 0 0 lg = (r, lg @ l)"
    using poll_receipt_log [of self h t 0 0 lg] p by simp
  show ?thesis
    by (cases r) (simp_all add: wait_for_transaction_def io_run returned_def emitted_def p q)
qed

lemma wait_for_transaction_broadcasts:
  "broadcasts (emitted (wait_for_transaction self h t)) = []"
proof -
  obtain r l where p: "poll_receipt self h t 0 0 [] = (r, l)"
    by (cases "poll_receipt self h t 0 0 []")
  have "broadcasts l = []"
    using poll_receipt_broadcasts [of self h t 0 0 "[]"] p by simp
  then show ?thesis
    by (cases r) (simp_all add: wait_for_transaction_def io_run emitted_def p)
qed

lemma wait_for_transaction_returned:
  "fst (wait_for_transaction self h t lg) = Inr r \<longleftrightarrow> returned (wait_for_transaction self h t) = r"
  by (subst wait_for_transaction_run) simp

lemma poll_receipt_all_not_found:
  "\<forall>lg. (\<forall>j. \<exists>msg. get_transaction_receipt (w3 self) h j = Inl (TransactionNotFound, msg)) \<longrightarrow>
     fst (poll_receipt self h t k el lg) = Inr None"
proof (induct self h t k el "dummy :: event list" rule: poll_receipt.induct)
  case (1 self h t k el dummy)
  show ?case
  proof (intro allI impI)
    fix lg
    assume nf: "\<forall>j. \<exists>msg. get_transaction_receipt (w3 self) h j = Inl (TransactionNotFound, msg)"
    then obtain msg where m: "get_transaction_receipt (w3 self) h k = Inl (TransactionNotFound, msg)"
      by blast
    show "fst (poll_receipt self h t k el lg) = Inr None"
    proof (cases "el < t * 1000")
      case True
      from 1 [OF True m] nf show ?thesis
        by (subst poll_receipt.simps) (simp add: True m)
    next
      case False
      then show ?thesis by (subst poll_receipt.simps) simp
    qed
  qed
qed

lemma poll_receipt_hard_error:
  "(\<forall>j<n. \<exists>msg. get_transaction_receipt (w3 self) h (k + j) = Inl (TransactionNotFound, msg)) \<Longrightarrow>
   get_transaction_receipt (w3 self) h (k + n) = Inl err \<Longrightarrow>
   fst err \<noteq> TransactionNotFound \<Longrightarrow>
   el + (\<Sum>j<n. 2000 + lag (w3 self) (k + j)) < t * 1000 \<Longrightarrow>
   fst (poll_receipt self h t k el lg) = Inl err"
proof (induction n arbitrary: k el lg)
  case 0
  then show ?case by (subst poll_receipt.simps) simp
next
  case (Suc n)
  from Suc.prems(1) obtain msg where
    m: "get_transaction_receipt (w3 self) h k = Inl (TransactionNotFound, msg)"
    by force
  have s: "(\<Sum>j<Suc n. 2000 + lag (w3 self) (k + j)) =
      2000 + lag (w3 self) k + (\<Sum>j<n. 2000 + lag (w3 self) (Suc k + j))"
    using sum.lessThan_Suc_shift [of "\<lambda>j. 2000 + lag (w3 self) (k + j)" n]
    by (simp del: sum.lessThan_Suc)
  have el: "el < t * 1000" using Suc.prems(4) by simp
  have "fst (poll_receipt self h t (Suc k) (el + 2000 + lag (w3 self) k)
           (lg @ [GetTransactionReceipt h])) = Inl err"
  proof (rule Suc.IH)
    show "\<forall>j<n. \<exists>msg. get_transaction_receipt (w3 self) h (Suc k + j) = Inl (TransactionNotFound, msg)"
      using Suc.prems(1) by (metis Suc_less_eq add_Suc_right add_Suc)
    show "get_transaction_receipt (w3 self) h (Suc k + n) = Inl err"
      using Suc.prems(2) by simp
    show "fst err \<noteq> TransactionNotFound" by (rule Suc.prems(3))
    show "el + 2000 + lag (w3 self) k + (\<Sum>j<n. 2000 + lag (w3 self) (Suc k + j)) < t * 1000"
      using Suc.prems(4) unfolding s by simp
  qed
  then show ?case
    by (subst poll_receipt.simps) (simp add: el m)
qed

lemma poll_receipt_found_all:
  "\<forall>lg. fst (poll_receipt self h t k el lg) = Inr (Some rcpt) \<longrightarrow>
     (\<exists>j. get_transaction_receipt (w3 self) h j = Inr rcpt)"
proof (induct self h t k el "dummy :: event list" rule: poll_receipt.induct)
  case (1 self h t k el dummy)
  show ?case
  proof (intro allI impI)
    fix lg
    assume a: "fst (poll_receipt self h t k el lg) = Inr (Some rcpt)"
    show "\<exists>j. get_transaction_receipt (w3 self) h j = Inr rcpt"
    proof (cases "el < t * 1000")
      case True
      show ?thesis
      proof (cases "get_transaction_receipt (w3 self) h k")
        case (Inr r)
        with a True have "r = rcpt" by (subst (asm) poll_receipt.simps) simp
        with Inr show ?thesis by blast
      next
        case (Inl err)
        show ?thesis
        proof (cases "fst err = TransactionNotFound")
          case nf: True
          from a have "fst (poll_receipt self h t (Suc k) (el + 2000 + lag (w3 self) k)
              (lg @ [GetTransactionReceipt h])) = Inr (Some rcpt)"
            by (subst (asm) poll_receipt.simps) (simp add: True Inl nf)
          with 1 [OF True Inl nf] show ?thesis by blast
        next
          case False
          with a True Inl show ?thesis by (subst (asm) poll_receipt.simps) simp
        qed
      qed
    next
      case False
      with a show ?thesis by (subst (asm) poll_receipt.simps) simp
    qed
  qed
qed

lemma wait_for_transaction_found:
  assumes "returned (wait_for_transaction self h t) = Some rcpt"
  shows "\<exists>j. get_transaction_receipt (w3 self) h j = Inr rcpt"
proof -
  obtain r l where p: "poll_receipt self h t 0 0 [] = (r, l)"
    by (cases "poll_receipt self h t 0 0 []")
  from assms have "r = Inr (Some rcpt)"
    by (cases r) (simp_all add: wait_for_transaction_def io_run returned_def p)
  with p have "fst (poll_receipt self h t 0 0 []) = Inr (Some rcpt)" by simp
  with poll_receipt_found_all show ?thesis by blast
qed

subsection \<open>Symbolic and concrete runs of a withdrawal\<close>

lemmas withdraw_run =
  withdraw_usdt_def withdraw_try_def validate_address_run get_allowance_run
  get_usdt_balance_run get_gas_price_run estimate_gas_run wait_for_transaction_run
  io_run withdraw_except_def

lemma frac_digits_numeral:
  "frac_digits (numeral k) r = frac_digits (pred_numeral k) (r div 10) @ [digit_char (r mod 10)]"
  by (metis frac_digits.simps(2) numeral_eq_Suc)

lemmas float_eval =
  to_amount_wei_def float_mul_int_def float_of_int_def round_to_double_def binade_def
  bit_length.simps round_half_even_def int_truediv_def signed_mantissa_def Let_def
  show_nat.simps digit_char_def fixed_point_def float_1_2_def to_wei_gwei_def frac_digits_numeral

lemmas run_eval =
  withdraw_usdt_def withdraw_try_def validate_address_def get_allowance_def
  get_usdt_balance_def get_gas_price_def estimate_gas_def wait_for_transaction_def
  io_run withdraw_except_def poll_receipt.simps example_config_def example_chain_def
  example_manager_def with_chain_def timeout_manager_def reverted_manager_def
  failing_lookup_manager_def rejecting_manager_def small_allowance_manager_def
  dust_balance_manager_def float_eval success_message_def hex_def

lemma withdraw_from_broadcast:
  "fst (withdraw_usdt cfg self from_wallet amount_usdt []) =
     (case broadcasts (snd (withdraw_usdt cfg self from_wallet amount_usdt [])) of
        [] \<Rightarrow> fst (withdraw_usdt cfg self from_wallet amount_usdt [])
      | raw # raws \<Rightarrow>
          (case send_raw_transaction (w3 self) raw of
             Inl err \<Rightarrow> fst (withdraw_except err [])
           | Inr tx_hash \<Rightarrow>
               (case returned (wait_for_transaction self tx_hash 120) of
                  None \<Rightarrow> Inr (False, ''Transaction failed or was reverted'')
                | Some rcpt \<Rightarrow>
                    if status rcpt = 1
                    then Inr (True, success_message amount_usdt
                           (''https://bscscan.com/tx/'' @ hex tx_hash))
                    else Inr (False, ''Transaction failed or was reverted''))))"
  by (simp add: withdraw_run broadcasts_append get_allowance_broadcasts
        get_usdt_balance_broadcasts wait_for_transaction_broadcasts
        cong: prod.case_cong_weak split: sum.split option.split)

lemma withdraw_after_broadcast:
  "broadcasts (snd (withdraw_usdt cfg self from_wallet amount_usdt [])) = [raw] \<Longrightarrow>
   send_raw_transaction (w3 self) raw = Inr tx_hash \<Longrightarrow>
   fst (withdraw_usdt cfg self from_wallet amount_usdt []) =
     (case returned (wait_for_transaction self tx_hash 120) of
        None \<Rightarrow> Inr (False, ''Transaction failed or was reverted'')
      | Some rcpt \<Rightarrow>
          if status rcpt = 1
          then Inr (True, success_message amount_usdt (''https://bscscan.com/tx/'' @ hex tx_hash))
          else Inr (False, ''Transaction failed or was reverted''))"
  by (subst withdraw_from_broadcast) simp

lemma withdraw_success_path:
  assumes "fst (withdraw_usdt cfg self from_wallet0 amount_usdt lg) = Inr (True, message)"
  shows "\<exists>from_wallet amount_wei allowance_usdt balance nonce transfer data transaction
       raw_transaction tx_hash rcpt.
     is_address (w3 self) from_wallet0 = Inr True \<and>
     to_checksum_address (w3 self) from_wallet0 = Inr from_wallet \<and>
     to_amount_wei cfg amount_usdt = Inr amount_wei \<and>
     returned (get_allowance cfg self from_wallet) = Some allowance_usdt \<and>
     \<not> float_lt allowance_usdt amount_usdt \<and>
     returned (get_usdt_balance cfg self from_wallet) = Some balance \<and>
     \<not> float_lt balance amount_usdt \<and>
     get_transaction_count (w3 self) (my_address self) = Inr nonce \<and>
     transferFrom (w3 self) from_wallet (my_address self) amount_wei = Inr transfer \<and>
     encode_transaction_data (w3 self) transfer = Inr data \<and>
     build_transaction (w3 self) transfer
       \<lparr>tx_from = my_address self, tx_nonce = nonce,
        tx_gas = returned (estimate_gas cfg self
          \<lparr>q_from = my_address self, q_to = USDT_ADDRESS cfg, q_data = data\<rparr>),
        tx_gasPrice = returned (get_gas_price cfg self)\<rparr> = Inr transaction \<and>
     sign_transaction (w3 self) transaction (PRIVATE_KEY cfg) = Inr raw_transaction \<and>
     send_raw_transaction (w3 self) raw_transaction = Inr tx_hash \<and>
     returned (wait_for_transaction self tx_hash 120) = Some rcpt \<and>
     status rcpt = 1 \<and>
     message = success_message amount_usdt (''https://bscscan.com/tx/'' @ hex tx_hash)"
  using assms
  by (simp add: withdraw_run cong: prod.case_cong_weak
      split: sum.split_asm option.split_asm if_split_asm)

lemma sublist_filter_length:
  "sublist xs ys \<Longrightarrow> length (filter P xs) \<le> length (filter P ys)"
  by (auto simp add: sublist_def)

section \<open>Rounding to double precision\<close>

subsection \<open>Bit lengths, rounding to the nearest integer, and binades\<close>

text \<open>
  The number of bits of \<open>n\<close> brackets it between two powers of two; the rounding of a
  quotient to the nearest integer errs by at most one half; and \<open>binade n d\<close> is the exponent
  of the power of two just below \<open>n / d\<close>.
\<close>

lemma bit_length_bounds:
  "0 < n \<Longrightarrow> 2 ^ (bit_length n - 1) \<le> n \<and> n < 2 ^ bit_length n"
proof (induction n rule: bit_length.induct)
  case (1 n)
  show ?case
  proof (cases "n div 2 = 0")
    case True
    with 1(2) have "n = 1" by (simp add: div_eq_0_iff) 
    then show ?thesis by (simp add: bit_length.simps)
  next
    case False
    then have pos: "0 < n div 2" by simp
    from 1(1) [OF _ pos] 1(2)
    have ih: "2 ^ (bit_length (n div 2) - 1) \<le> n div 2 \<and> n div 2 < 2 ^ bit_length (n div 2)"
      by simp
    have bl: "bit_length n = Suc (bit_length (n div 2))"
      using 1(2) by (subst bit_length.simps) simp
    have b1: "0 < bit_length (n div 2)"
      using pos by (subst bit_length.simps) simp
    then obtain j where j: "bit_length (n div 2) = Suc j" by (cases "bit_length (n div 2)") auto
    from ih show ?thesis unfolding bl j by auto
  qed
qed

lemma bit_length_unique:
  "2 ^ j \<le> n \<Longrightarrow> n < 2 ^ Suc j \<Longrightarrow> bit_length n = Suc j"
proof -
  assume a: "2 ^ j \<le> n" and b: "n < 2 ^ Suc j"
  then have pos: "0 < n" by (metis less_le_trans zero_less_numeral zero_less_power)
  from bit_length_bounds [OF pos] have c: "2 ^ (bit_length n - 1) \<le> n" and d: "n < 2 ^ bit_length n"
    by auto
  from le_less_trans [OF a d] have 1: "j < bit_length n" by simp
  from le_less_trans [OF c b] have 2: "bit_length n - 1 < Suc j"
    by (rule power_less_imp_less_exp [of 2, rotated]) simp
  from 1 2 show ?thesis by simp
qed

lemma round_half_even_error:
  "0 < d \<Longrightarrow> \<bar>real (round_half_even n d) - real n / real d\<bar> \<le> 1 / 2"
proof -
  assume d: "0 < d"
  let ?q = "n div d" and ?r = "n mod d"
  have n: "real n = real ?q * real d + real ?r"
    by (metis div_mult_mod_eq of_nat_add of_nat_mult)
  have rd: "?r < d" using d by simp
  have frac: "real n / real d = real ?q + real ?r / real d"
    using d by (simp add: n field_simps)
  have r1: "real ?r / real d < 1" using rd d by simp
  have r0: "0 \<le> real ?r / real d" by simp
  show ?thesis
  proof (cases "2 * ?r < d")
    case True
    then have "real ?r / real d \<le> 1 / 2" using d by (simp add: field_simps)
    with True r0 show ?thesis by (simp add: round_half_even_def Let_def frac)
  next
    case False
    show ?thesis
    proof (cases "d < 2 * ?r")
      case True
      then have "1 / 2 \<le> real ?r / real d" using d by (simp add: field_simps)
      with True False r1 show ?thesis by (simp add: round_half_even_def Let_def frac)
    next
      case F2: False
      with False have "2 * ?r = d" by simp
      then have "real ?r / real d = 1 / 2" using d by (simp add: field_simps)
      with False F2 show ?thesis by (simp add: round_half_even_def Let_def frac)
    qed
  qed
qed

lemma round_half_even_nearest:
  assumes d: "0 < d" and k: "\<bar>real n / real d - real k\<bar> < 1 / 2"
  shows "round_half_even n d = k"
proof -
  from round_half_even_error [OF d, of n] k
  have "\<bar>real (round_half_even n d) - real k\<bar> < 1" by linarith
  then have "\<bar>int (round_half_even n d) - int k\<bar> < 1"
    by (metis of_int_abs of_int_diff of_int_less_1_iff of_int_of_nat_eq)
  then show ?thesis by simp
qed

lemma bit_length_powi:
  assumes "0 < n"
  shows "2 powi (int (bit_length n) - 1) \<le> real n" and "real n < 2 powi int (bit_length n)"
proof -
  from bit_length_bounds [OF assms]
  have a: "2 ^ (bit_length n - 1) \<le> n" and b: "n < 2 ^ bit_length n" by auto
  have pos: "0 < bit_length n" using assms by (subst bit_length.simps) simp
  then have "int (bit_length n) - 1 = int (bit_length n - 1)" by simp
  then have "(2::real) powi (int (bit_length n) - 1) = 2 ^ (bit_length n - 1)"
    by (simp only: power_int_of_nat)
  also have "\<dots> \<le> real n" using a by (metis of_nat_le_iff of_nat_numeral of_nat_power)
  finally show "2 powi (int (bit_length n) - 1) \<le> real n" .
  have "real n < 2 ^ bit_length n" using b by (metis of_nat_less_iff of_nat_numeral of_nat_power)
  then show "real n < 2 powi int (bit_length n)" by (simp only: power_int_of_nat)
qed

lemma binade_bounds:
  assumes n: "0 < n" and d: "0 < d"
  shows "2 powi binade n d \<le> real n / real d" and "real n / real d < 2 powi (binade n d + 1)"
proof -
  let ?k = "int (bit_length n) - int (bit_length d)"
  let ?x = "real n / real d"
  note bn = bit_length_powi [OF n] and bd = bit_length_powi [OF d]
  have dpos: "0 < real d" using d by simp
  have npos: "0 < real n" using n by simp
  have lo: "(2::real) powi (?k - 1) < ?x"
  proof -
    have "?k - 1 = (int (bit_length n) - 1) - int (bit_length d)" by simp
    then have "(2::real) powi (?k - 1) = 2 powi (int (bit_length n) - 1) / 2 powi int (bit_length d)"
      by (simp only: power_int_diff [of "2::real", simplified])
    also have "\<dots> \<le> real n / 2 powi int (bit_length d)"
      using bn(1) by (simp add: divide_right_mono)
    also have "\<dots> < real n / real d"
      using bd(2) npos dpos by (simp add: divide_strict_left_mono)
    finally show ?thesis .
  qed
  have hi: "?x < (2::real) powi (?k + 1)"
  proof -
    have "real n / real d < 2 powi int (bit_length n) / real d"
      using bn(2) dpos by (simp add: divide_strict_right_mono)
    also have "\<dots> \<le> 2 powi int (bit_length n) / 2 powi (int (bit_length d) - 1)"
      using frac_le [of "2 powi int (bit_length n)" "2 powi int (bit_length n)"
          "2 powi (int (bit_length d) - 1)" "real d"] bd(1)
      by simp
    also have "\<dots> = 2 powi (int (bit_length n) - (int (bit_length d) - 1))"
      by (simp only: power_int_diff [of "2::real", simplified])
    also have "\<dots> = 2 powi (?k + 1)"
      by (simp add: algebra_simps)
    finally show ?thesis .
  qed
  have test: "(if 0 \<le> ?k then d * 2 ^ nat ?k \<le> n else d \<le> n * 2 ^ nat (- ?k)) \<longleftrightarrow> 2 powi ?k \<le> ?x"
  proof (cases "0 \<le> ?k")
    case True
    then have p: "(2::real) powi ?k = 2 ^ nat ?k" by (simp add: power_int_def)
    have "d * 2 ^ nat ?k \<le> n \<longleftrightarrow> real d * 2 ^ nat ?k \<le> real n"
      by (metis of_nat_le_iff of_nat_mult of_nat_numeral of_nat_power)
    also have "\<dots> \<longleftrightarrow> 2 ^ nat ?k \<le> ?x" using dpos by (simp add: field_simps)
    finally show ?thesis using True p by simp
  next
    case False
    then have p: "(2::real) powi ?k = 1 / 2 ^ nat (- ?k)" by (simp add: power_int_def field_simps)
    have "d \<le> n * 2 ^ nat (- ?k) \<longleftrightarrow> real d \<le> real n * 2 ^ nat (- ?k)"
      by (metis of_nat_le_iff of_nat_mult of_nat_numeral of_nat_power)
    also have "\<dots> \<longleftrightarrow> 1 / 2 ^ nat (- ?k) \<le> ?x" using dpos by (simp add: field_simps)
    finally show ?thesis using False p by simp
  qed
  define T where "T \<longleftrightarrow> 2 powi ?k \<le> ?x"
  have bin: "binade n d = (if T then ?k else ?k - 1)"
    unfolding binade_def Let_def T_def test [symmetric] by (rule refl)
  show "2 powi binade n d \<le> ?x"
  proof (cases T)
    case True
    then show ?thesis unfolding bin using T_def by simp
  next
    case False
    then show ?thesis unfolding bin using lo by simp
  qed
  show "?x < 2 powi (binade n d + 1)"
  proof (cases T)
    case True
    then show ?thesis unfolding bin using hi by simp
  next
    case False
    then show ?thesis unfolding bin using T_def by simp
  qed
qed

subsection \<open>The result of a rounding, by range\<close>

lemma round_half_even_one: "round_half_even n (Suc 0) = n"
  by (simp add: round_half_even_def)

lemma bit_length_one: "bit_length (Suc 0) = Suc 0"
  by (simp add: bit_length.simps)

lemma bit_length_le:
  assumes p: "0 < p" and lt: "p < 2 ^ j"
  shows "bit_length p \<le> j" and "0 < bit_length p"
proof -
  from bit_length_bounds [OF p] have a: "2 ^ (bit_length p - 1) \<le> p" by simp
  from le_less_trans [OF a lt] have "bit_length p - 1 < j"
    by (rule power_less_imp_less_exp [of 2, rotated]) simp
  then show "bit_length p \<le> j" by simp
  show "0 < bit_length p" using p by (subst bit_length.simps) simp
qed

lemma float_of_int_small:
  assumes p: "0 < p" and lt: "p < 2 ^ 52"
  shows "float_of_int (int p) =
    Inr (Finite False (p * 2 ^ (53 - bit_length p)) (int (bit_length p) - 53))"
proof -
  let ?b = "bit_length p"
  from bit_length_bounds [OF p] have a: "2 ^ (?b - 1) \<le> p" by simp
  note b = bit_length_le [OF p lt]
  have k: "nat (int ?b - 1) = ?b - 1" by simp
  have t: "(if 0 \<le> int ?b - int (Suc 0) then Suc 0 * 2 ^ nat (int ?b - int (Suc 0)) \<le> p
        else Suc 0 \<le> p * 2 ^ nat (- (int ?b - int (Suc 0))))"
    using a b(2) by (simp add: k)
  have bin: "binade p (Suc 0) = int ?b - 1"
    unfolding binade_def Let_def bit_length_one using t by simp
  have e: "max (binade p (Suc 0) - 52) (- 1074) = int ?b - 53" using b(1) by (simp add: bin)
  have ne: "nat (- (int ?b - 53)) = 53 - ?b" by simp
  have neg: "\<not> 0 \<le> int ?b - 53" using b(1) by simp
  have r: "round_to_double False p (Suc 0) = Finite False (p * 2 ^ (53 - ?b)) (int ?b - 53)"
    unfolding round_to_double_def Let_def e using p neg b(1)
    by (simp add: ne round_half_even_one)
  show ?thesis
    by (simp add: float_of_int_def r)
qed

lemma round_to_double_fraction:
  assumes n: "0 < n" and L: "binade n d = L" and lo: "- 1022 \<le> L" and hi: "L < 52"
  shows "round_to_double s n d = Finite s (round_half_even (n * 2 ^ nat (52 - L)) d) (L - 52)"
proof -
  have e: "max (binade n d - 52) (- 1074) = L - 52" using L lo by simp
  have neg: "(0 \<le> L - 52) = False" using hi by simp
  have inf: "(971 < L - 52 \<or> (L - 52 = 971 \<and> X)) = False" for X using hi by simp
  have nn: "- (L - 52) = 52 - L" by simp
  have n0: "(n = 0) = False" using n by simp
  show ?thesis unfolding round_to_double_def Let_def e
    by (simp only: neg inf nn n0 if_False)
qed

lemma round_to_double_below:
  assumes n: "0 < n" and e: "max (binade n d - 52) (- 1074) = e" and neg: "e < 0"
  shows "round_to_double s n d = Finite s (round_half_even (n * 2 ^ nat (- e)) d) e"
proof -
  have a: "(0 \<le> e) = False" using neg by simp
  have b: "(971 < e \<or> (e = 971 \<and> X)) = False" for X using neg by simp
  have n0: "(n = 0) = False" using n by simp
  show ?thesis unfolding round_to_double_def Let_def e
    by (simp only: a b n0 if_False)
qed

lemma round_to_double_above:
  assumes n: "0 < n" and L: "binade n d = L" and lo: "52 \<le> L" and hi: "L \<le> 1022"
  shows "round_to_double s n d =
    Finite s (round_half_even n (d * 2 ^ nat (L - 52))) (L - 52)"
proof -
  have e: "max (binade n d - 52) (- 1074) = L - 52" using L lo by simp
  have a: "(0 \<le> L - 52) = True" using lo by simp
  have b: "(971 < L - 52 \<or> (L - 52 = 971 \<and> X)) = False" for X using hi by simp
  have n0: "(n = 0) = False" using n by simp
  show ?thesis unfolding round_to_double_def Let_def e
    by (simp only: a b n0 if_False if_True)
qed

lemma round_half_even_multiple: "0 < c \<Longrightarrow> round_half_even (a * c) c = a"
  by (rule round_half_even_nearest) simp_all

lemma power_nat_powi: "real (2 ^ k) = 2 powi int k"
  by (simp add: power_int_of_nat)

lemma float_of_int_exact:
  assumes q: "0 < q" "q < 2 ^ 53" and fin: "q * 2 ^ j < 2 ^ 1023"
  shows "\<exists>m' e'. float_of_int (int (q * 2 ^ j)) = Inr (Finite False m' e')
    \<and> real m' * 2 powi e' = real (q * 2 ^ j)"
proof -
  define n where "n = q * 2 ^ j"
  have n: "0 < n" using q by (simp add: n_def)
  define L where "L = binade n 1"
  from binade_bounds [OF n, of 1]
  have Lb: "2 powi L \<le> real n" "real n < 2 powi (L + 1)" by (simp_all add: L_def)
  have L0: "0 \<le> L"
  proof (rule ccontr)
    assume "\<not> 0 \<le> L"
    then have "L + 1 \<le> 0" by simp
    then have "(2::real) powi (L + 1) \<le> 2 powi 0" by (intro power_int_increasing) simp_all
    moreover have "1 \<le> real n" using n by simp
    ultimately show False using Lb(2) by simp
  qed
  have foi: "float_of_int (int n) =
      (case round_to_double False n 1 of
         Infinity s \<Rightarrow> Inl (OverflowError, ''int too large to convert to float'')
       | x \<Rightarrow> Inr x)"
    by (simp add: float_of_int_def)
  show ?thesis
  proof (cases "L < 52")
    case True
    have rd: "round_to_double False n 1 = Finite False (n * 2 ^ nat (52 - L)) (L - 52)"
      using round_to_double_fraction [OF n, of 1 L False] L0 True
      by (simp add: L_def round_half_even_one)
    have "(2::real) ^ nat (52 - L) = 2 powi (52 - L)" using True by (simp add: power_int_def)
    then have "real (n * 2 ^ nat (52 - L)) * 2 powi (L - 52) =
        real n * (2 powi (52 - L) * 2 powi (L - 52))" by simp
    also have "2 powi (52 - L) * 2 powi (L - 52) = (2::real) powi ((52 - L) + (L - 52))"
      by (rule power_int_add [symmetric]) simp
    finally have val: "real (n * 2 ^ nat (52 - L)) * 2 powi (L - 52) = real n" by simp
    show ?thesis unfolding n_def [symmetric] foi rd using val by simp
  next
    case False
    then have L52: "52 \<le> L" by simp
    have "real n < real (2 ^ 1023)" using fin unfolding n_def by (simp only: of_nat_less_iff)
    then have "(2::real) powi L < 2 powi 1023" using Lb(1) by simp
    then have "L < 1023" by (rule power_int_le_imp_less_exp [of 2, rotated]) simp_all
    then have L1022: "L \<le> 1022" by simp
    define E where "E = nat (L - 52)"
    have "q * 2 ^ j < 2 ^ 53 * 2 ^ j" using q(2) by simp
    then have "real n < real (2 ^ (53 + j))" unfolding n_def power_add by (simp only: of_nat_less_iff)
    then have "real n < 2 powi int (53 + j)" by (simp only: power_nat_powi)
    with Lb(1) have "(2::real) powi L < 2 powi int (53 + j)" by simp
    then have "L < int (53 + j)" by (rule power_int_le_imp_less_exp [of 2, rotated]) simp_all
    then have Ej: "E \<le> j" by (simp add: E_def)
    have split: "n = q * 2 ^ (j - E) * 2 ^ E"
      using Ej by (simp add: n_def power_add [symmetric])
    have rd: "round_to_double False n 1 = Finite False (round_half_even n (1 * 2 ^ E)) (L - 52)"
      unfolding E_def by (rule round_to_double_above [OF n _ L52 L1022]) (simp add: L_def)
    have "round_half_even (q * 2 ^ (j - E) * 2 ^ E) (2 ^ E) = q * 2 ^ (j - E)"
      by (rule round_half_even_multiple) simp
    then have rhe: "round_half_even n (1 * 2 ^ E) = q * 2 ^ (j - E)"
      using split by simp
    have "(2::real) powi (L - 52) = 2 ^ E" using L52 by (simp add: E_def power_int_def)
    then have "real (q * 2 ^ (j - E)) * 2 powi (L - 52) = real (q * 2 ^ (j - E) * 2 ^ E)"
      by simp
    then have val: "real (q * 2 ^ (j - E)) * 2 powi (L - 52) = real n"
      by (simp only: split [symmetric])
    show ?thesis unfolding n_def [symmetric] foi rd rhe using val by simp
  qed
qed

lemma float_mul_fraction:
  "\<exists>n d. 0 < d \<and> float_mul (Finite s m e) (Finite False m2 e2) = round_to_double s n d
     \<and> real n / real d = (real m * 2 powi e) * (real m2 * 2 powi e2)"
proof -
  have pp: "(real m * 2 powi e) * (real m2 * 2 powi e2) = real m * real m2 * 2 powi (e + e2)"
  proof -
    have "(2::real) powi (e + e2) = 2 powi e * 2 powi e2" by (rule power_int_add) simp
    then show ?thesis by simp
  qed
  show ?thesis
  proof (cases "0 \<le> e + e2")
    case True
    then have p: "(2::real) powi (e + e2) = 2 ^ nat (e + e2)" by (simp add: power_int_def)
    have 1: "float_mul (Finite s m e) (Finite False m2 e2) =
        round_to_double s (m * m2 * 2 ^ nat (e + e2)) 1"
      using True by simp
    have 2: "real (m * m2 * 2 ^ nat (e + e2)) / real 1 =
        (real m * 2 powi e) * (real m2 * 2 powi e2)"
      unfolding pp p by simp
    from 1 2 show ?thesis by (intro exI conjI) (auto intro: zero_less_one)
  next
    case False
    then have p: "(2::real) powi (e + e2) = 1 / 2 ^ nat (- (e + e2))"
      by (simp add: power_int_def field_simps)
    have 0: "0 < (2::nat) ^ nat (- (e + e2))" by simp
    have 1: "float_mul (Finite s m e) (Finite False m2 e2) =
        round_to_double s (m * m2) (2 ^ nat (- (e + e2)))"
      using False by simp
    have 2: "real (m * m2) / real (2 ^ nat (- (e + e2))) =
        (real m * 2 powi e) * (real m2 * 2 powi e2)"
      unfolding pp p by simp
    from 0 1 2 show ?thesis by blast
  qed
qed

subsection \<open>The premium of twenty percent\<close>

text \<open>
  The double nearest to 1.2 is \<open>5404319552844595 / 2\<^sup>5\<^sup>2\<close>, a little less than \<open>6 / 5\<close>.
  For a price below \<open>2\<^sup>5\<^sup>0\<close> the rounded product, truncated, is still \<open>6 * p div 5\<close>.
\<close>

lemma premium_arith:
  fixes m N r :: nat and X P A R V :: real
  assumes a: "5 * X = 6 * P - P / 2 ^ 52"
    and b: "6 * P = 5 * A + R"
    and c: "0 \<le> P" "P \<le> X" "X < 2 ^ 53"
    and d: "\<bar>real m - X\<bar> \<le> 1 / 2"
    and e: "4 \<le> V"
    and r: "r = 0 \<longrightarrow> R = 0" "0 < r \<longrightarrow> V \<le> R \<and> R \<le> 4 * V"
  shows "(r = 0 \<longrightarrow> \<bar>real m - A\<bar> < 1) \<and> (0 < r \<longrightarrow> A - 1 < real m \<and> real m < A + V)"
proof -
  have t: "P / 2 ^ 52 < 2" using c by simp
  have t0: "0 \<le> P / 2 ^ 52" using c by simp
  show ?thesis
  proof (intro conjI impI)
    assume "r = 0"
    with r have "R = 0" by simp
    with a b t t0 d show "\<bar>real m - A\<bar> < 1" by linarith
  next
    assume "0 < r"
    with r have "V \<le> R" by simp
    with a b t t0 d e show "A - 1 < real m" by linarith
  next
    assume "0 < r"
    with r have "R \<le> 4 * V" by simp
    with a b t t0 d e show "real m < A + V" by linarith
  qed
qed

lemma premium_rounding:
  assumes p: "0 < p" and lt: "p < 2 ^ 50"
  shows "int_of_float (float_mul float_1_2
      (Finite False (p * 2 ^ (53 - bit_length p)) (int (bit_length p) - 53))) =
    Inr (int (6 * p div 5))"
proof -
  let ?M = "5404319552844595 :: nat"
  let ?b = "bit_length p"
  note b = bit_length_le [OF p lt]
  define n where "n = ?M * (p * 2 ^ (53 - ?b))"
  define d where "d = (2::nat) ^ (105 - ?b)"
  have npos: "0 < n" using p by (simp add: n_def)
  have dpos: "0 < d" by (simp add: d_def)
  have ee: "\<not> 0 \<le> - 52 + (int ?b - 53)" "nat (- (- 52 + (int ?b - 53))) = 105 - ?b"
    using b by simp_all
  have fm: "float_mul float_1_2 (Finite False (p * 2 ^ (53 - ?b)) (int ?b - 53)) =
      round_to_double False n d"
    unfolding float_1_2_def float_mul.simps Let_def n_def d_def using ee by simp
  define x where "x = real (?M * p) / 2 ^ 52"
  have dsplit: "105 - ?b = (53 - ?b) + 52" using b by simp
  have xnd: "real n / real d = x"
    unfolding n_def d_def x_def dsplit power_add by simp
  define L where "L = binade n d"
  from binade_bounds [OF npos dpos]
  have Lb: "2 powi L \<le> x" "x < 2 powi (L + 1)" unfolding L_def xnd by simp_all
  have Mp: "2 ^ 52 * p \<le> ?M * p" by simp
  have px: "real p \<le> x"
  proof -
    have "real (2 ^ 52 * p) \<le> real (?M * p)" using Mp by (simp only: of_nat_le_iff)
    then have "real p * 2 ^ 52 \<le> real (?M * p)" by simp
    then show ?thesis unfolding x_def by (simp add: field_simps)
  qed
  have x1: "1 \<le> x" using px p by simp
  have x2: "x < 2 ^ 51"
  proof -
    have "?M * p < 2 ^ 53 * 2 ^ 50"
      using lt by (intro mult_strict_mono) simp_all
    then have "real (?M * p) < real (2 ^ 53 * 2 ^ 50)" by (simp only: of_nat_less_iff)
    then show ?thesis unfolding x_def by (simp add: field_simps)
  qed
  have L50: "L \<le> 50"
  proof -
    have "(2::real) powi L < 2 powi 51" using Lb(1) x2 by simp
    then have "L < 51" by (rule power_int_le_imp_less_exp [of 2, rotated]) simp_all
    then show ?thesis by simp
  qed
  have L0: "0 \<le> L"
  proof (rule ccontr)
    assume "\<not> 0 \<le> L"
    then have "L + 1 \<le> 0" by simp
    then have "(2::real) powi (L + 1) \<le> 2 powi 0" by (intro power_int_increasing) simp_all
    with Lb(2) x1 show False by simp
  qed
  define j where "j = nat (52 - L)"
  define v where "v = (2::nat) ^ j"
  define m where "m = round_half_even (n * v) d"
  have j2: "2 \<le> j" "j \<le> 52" using L0 L50 by (simp_all add: j_def)
  have e: "\<not> 0 \<le> L - 52" "nat (- (L - 52)) = j"
    using L0 L50 by (simp_all add: j_def)
  have rd: "round_to_double False n d = Finite False m (L - 52)"
    unfolding m_def v_def j_def
    by (rule round_to_double_fraction [OF npos]) (use L0 L50 in \<open>simp_all add: L_def\<close>)
  have iof: "int_of_float (Finite False m (L - 52)) = Inr (int (m div v))"
    using e by (simp add: v_def zdiv_int)
  have vpos: "0 < v" by (simp add: v_def)
  have rv: "real v = 2 powi (52 - L)"
    using L50 by (simp add: v_def j_def power_int_def)
  have err: "\<bar>real m - x * real v\<bar> \<le> 1 / 2"
  proof -
    have "real (n * v) / real d = x * real v" using xnd [symmetric] by simp
    with round_half_even_error [OF dpos, of "n * v"] show ?thesis by (simp add: m_def)
  qed
  have X53: "x * real v < 2 ^ 53"
  proof -
    have s: "(L + 1) + (52 - L) = 53" by simp
    have "x * real v < 2 powi (L + 1) * 2 powi (52 - L)"
      unfolding rv using Lb(2) by (intro mult_strict_right_mono) simp_all
    also have "\<dots> = 2 powi ((L + 1) + (52 - L))"
      by (rule power_int_add [symmetric]) simp
    also have "\<dots> = 2 ^ 53" unfolding s by simp
    finally show ?thesis .
  qed
  have V4: "4 \<le> real v"
  proof -
    have "(2::nat) ^ 2 \<le> 2 ^ j" using j2 by (intro power_increasing) simp_all
    then have "4 \<le> v" by (simp add: v_def)
    then show ?thesis by simp
  qed
  define N where "N = 6 * p div 5"
  define r where "r = 6 * p mod 5"
  have pr: "6 * p = 5 * N + r" and r5: "r < 5" by (simp_all add: N_def r_def)
  let ?X = "x * real v" and ?P = "real p * real v" and ?A = "real N * real v"
    and ?R = "real r * real v"
  have a1: "5 * x = 6 * real p - real p / 2 ^ 52"
    unfolding x_def by (simp add: field_simps)
  have a: "5 * ?X = 6 * ?P - ?P / 2 ^ 52"
  proof -
    have "5 * ?X = (5 * x) * real v" by simp
    also have "\<dots> = (6 * real p - real p / 2 ^ 52) * real v" by (simp only: a1)
    finally show ?thesis by (simp add: algebra_simps)
  qed
  have b': "6 * ?P = 5 * ?A + ?R"
  proof -
    have "real (6 * p) = real (5 * N + r)" by (simp only: pr)
    then have "6 * real p = 5 * real N + real r" by simp
    then have "(6 * real p) * real v = (5 * real N + real r) * real v" by simp
    then show ?thesis by (simp add: algebra_simps)
  qed
  have c: "0 \<le> ?P" "?P \<le> ?X"
    using px by (simp_all add: mult_right_mono)
  have rr: "r = 0 \<longrightarrow> ?R = 0" "0 < r \<longrightarrow> real v \<le> ?R \<and> ?R \<le> 4 * real v"
  proof -
    show "r = 0 \<longrightarrow> ?R = 0" by simp
    show "0 < r \<longrightarrow> real v \<le> ?R \<and> ?R \<le> 4 * real v"
    proof
      assume "0 < r"
      then have "1 \<le> real r" "real r \<le> 4" using r5 by simp_all
      then show "real v \<le> ?R \<and> ?R \<le> 4 * real v"
        using mult_right_mono [of 1 "real r" "real v"] mult_right_mono [of "real r" 4 "real v"]
        by simp
    qed
  qed
  from premium_arith [OF a b' c X53 err V4 rr]
  have concl: "(r = 0 \<longrightarrow> \<bar>real m - ?A\<bar> < 1)
      \<and> (0 < r \<longrightarrow> ?A - 1 < real m \<and> real m < ?A + real v)" .
  have "m div v = N"
  proof (cases "r = 0")
    case True
    with concl have "\<bar>real m - real (N * v)\<bar> < 1" by simp
    then have "real m < real (N * v + 1)" "real (N * v) < real (m + 1)"
      unfolding abs_less_iff by linarith+
    then have "m < N * v + 1" "N * v < m + 1" by (simp_all only: of_nat_less_iff)
    then have "m = N * v" by linarith
    then show ?thesis using vpos by simp
  next
    case False
    with concl have lo: "real (N * v) - 1 < real m" and hi: "real m < real (N * v + v)"
      by simp_all
    from lo have "real (N * v) < real (m + 1)" by simp
    then have "N * v < m + 1" by (simp only: of_nat_less_iff)
    then have 1: "v * N \<le> m" by (simp add: mult.commute)
    from hi have "m < N * v + v" by (simp only: of_nat_less_iff)
    then have 2: "m < v * Suc N" by (simp add: mult.commute)
    from 1 2 show ?thesis by (rule div_nat_eqI)
  qed
  then show ?thesis unfolding fm rd iof N_def by simp
qed

lemma float_of_int_zero: "float_of_int 0 = Inr (Finite False 0 0)"
  by (simp add: float_of_int_def round_to_double_def)

lemma premium_zero: "int_of_float (float_mul float_1_2 (Finite False 0 0)) = Inr 0"
  by (simp add: float_1_2_def round_to_double_def)

lemma premium_floor: "\<lfloor>real p * (6 / 5)\<rfloor> = int (6 * p div 5)"
proof -
  have "real p * (6 / 5) = real (6 * p) / real 5" by simp
  then show ?thesis by (simp only: floor_divide_of_nat_eq)
qed

lemma premium_of_price:
  assumes "p < 2 ^ 50"
  shows "float_mul_int float_1_2 (int p) = Inr x \<Longrightarrow> int_of_float x = Inr \<lfloor>real p * (6 / 5)\<rfloor>"
    and "\<exists>x. float_mul_int float_1_2 (int p) = Inr x"
proof -
  have lt: "p < 2 ^ 52"
    using assms by (rule less_le_trans) simp
  have *: "\<exists>y. float_of_int (int p) = Inr y
      \<and> int_of_float (float_mul float_1_2 y) = Inr \<lfloor>real p * (6 / 5)\<rfloor>"
  proof (cases "p = 0")
    case True
    then show ?thesis by (simp add: float_of_int_zero premium_zero)
  next
    case False
    then have p: "0 < p" by simp
    show ?thesis
      unfolding premium_floor float_of_int_small [OF p lt]
      using premium_rounding [OF p assms] by simp
  qed
  then obtain y where y: "float_of_int (int p) = Inr y"
    "int_of_float (float_mul float_1_2 y) = Inr \<lfloor>real p * (6 / 5)\<rfloor>" by blast
  show "\<exists>x. float_mul_int float_1_2 (int p) = Inr x" by (simp add: float_mul_int_def y)
  show "float_mul_int float_1_2 (int p) = Inr x \<Longrightarrow> int_of_float x = Inr \<lfloor>real p * (6 / 5)\<rfloor>"
    using y by (auto simp add: float_mul_int_def)
qed

subsection \<open>Truncation after rounding\<close>

lemma nat_div_bounds:
  assumes "0 < d"
  shows "real (n div d) \<le> real n / real d" and "real n / real d < real (n div d) + 1"
proof -
  have f: "\<lfloor>real n / real d\<rfloor> = int (n div d)" by (rule floor_divide_of_nat_eq)
  have "real_of_int \<lfloor>real n / real d\<rfloor> \<le> real n / real d" by (rule of_int_floor_le)
  then show "real (n div d) \<le> real n / real d" unfolding f by simp
  have "real n / real d < real_of_int \<lfloor>real n / real d\<rfloor> + 1" by linarith
  then show "real n / real d < real (n div d) + 1" unfolding f by simp
qed

lemma truncation_of_fraction:
  fixes m V f :: nat and x :: real
  assumes V: "0 < V" and err: "\<bar>real m - x * real V\<bar> \<le> 1 / 2"
    and f: "real f \<le> x" "x < real f + 1"
  shows "\<bar>real (m div V) - x\<bar> \<le> 1"
proof -
  have e1: "real m - x * real V \<le> 1 / 2" "x * real V - real m \<le> 1 / 2"
    using err by linarith+
  have fv: "real (f * V) = real f * real V" "real ((f + 1) * V + 1) = (real f + 1) * real V + 1"
    by (simp_all add: algebra_simps)
  have "real f * real V \<le> x * real V" using f(1) V by (simp add: mult_right_mono)
  then have "real (f * V) < real (m + 1)" unfolding fv using e1 by simp
  then have "f * V < m + 1" by (simp only: of_nat_less_iff)
  then have lo: "f * V \<le> m" by simp
  have "x * real V \<le> (real f + 1) * real V" using f(2) V by (simp add: mult_right_mono)
  then have "real m < real ((f + 1) * V + 1)" unfolding fv using e1 by linarith
  then have "m < (f + 1) * V + 1" by (simp only: of_nat_less_iff)
  then have hi: "m \<le> (f + 1) * V" by simp
  from lo have "f * V div V \<le> m div V" by (rule div_le_mono)
  then have 1: "f \<le> m div V" using V by simp
  from hi have "m div V \<le> (f + 1) * V div V" by (rule div_le_mono)
  then have 2: "m div V \<le> f + 1" using V by simp
  from 1 have "real f \<le> real (m div V)" by (simp only: of_nat_le_iff)
  moreover from 2 have "real (m div V) \<le> real (f + 1)" by (simp only: of_nat_le_iff)
  ultimately show ?thesis using f by simp
qed

lemma truncated_rounding_error:
  assumes d: "0 < d" and fin: "real n / real d < 2 ^ 1023"
  shows "\<exists>k. int_of_float (round_to_double s n d) = Inr ((if s then - 1 else 1) * int k)
    \<and> \<bar>real k - real n / real d\<bar> \<le> max 1 (real n / real d / 2 ^ 53)"
proof (cases "n = 0")
  case True
  then show ?thesis by (simp add: round_to_double_def)
next
  case False
  then have n: "0 < n" by simp
  define x where "x = real n / real d"
  define L where "L = binade n d"
  define e where "e = max (L - 52) (- 1074)"
  from binade_bounds [OF n d]
  have Lb: "2 powi L \<le> x" "x < 2 powi (L + 1)" unfolding L_def x_def by simp_all
  have xpos: "0 < x" using n d by (simp add: x_def)
  show ?thesis
  proof (cases "e < 0")
    case True
    define V where "V = (2::nat) ^ nat (- e)"
    define m where "m = round_half_even (n * V) d"
    have rd: "round_to_double s n d = Finite s m e"
      unfolding m_def V_def
      by (rule round_to_double_below [OF n _ True]) (simp add: e_def L_def)
    have V: "0 < V" by (simp add: V_def)
    have iof: "int_of_float (Finite s m e) = Inr ((if s then - 1 else 1) * int (m div V))"
      using True by (simp add: V_def zdiv_int)
    have "real (n * V) / real d = x * real V" by (simp add: x_def)
    with round_half_even_error [OF d, of "n * V"]
    have err: "\<bar>real m - x * real V\<bar> \<le> 1 / 2" by (simp add: m_def)
    from truncation_of_fraction [OF V err] nat_div_bounds [OF d, of n]
    have "\<bar>real (m div V) - x\<bar> \<le> 1" by (simp add: x_def)
    then have "\<bar>real (m div V) - x\<bar> \<le> max 1 (x / 2 ^ 53)" by simp
    then show ?thesis unfolding rd iof x_def by blast
  next
    case False
    then have L52: "52 \<le> L" by (simp add: e_def)
    have "(2::real) powi L < 2 powi 1023" using Lb(1) fin by (simp add: x_def)
    then have "L < 1023" by (rule power_int_le_imp_less_exp [of 2, rotated]) simp_all
    then have L1022: "L \<le> 1022" by simp
    define E where "E = nat (L - 52)"
    define m where "m = round_half_even n (d * 2 ^ E)"
    have rd: "round_to_double s n d = Finite s m (L - 52)"
      unfolding m_def E_def
      by (rule round_to_double_above [OF n _ L52 L1022]) (simp add: L_def)
    have iof: "int_of_float (Finite s m (L - 52)) = Inr ((if s then - 1 else 1) * int (m * 2 ^ E))"
      using L52 by (simp add: E_def)
    have dE: "0 < d * 2 ^ E" using d by simp
    have "real n / real (d * 2 ^ E) = x / 2 ^ E" by (simp add: x_def)
    with round_half_even_error [OF dE, of n]
    have err: "\<bar>real m - x / 2 ^ E\<bar> \<le> 1 / 2" by (simp add: m_def)
    have "(real m - x / 2 ^ E) * 2 ^ E = real m * 2 ^ E - x" by (simp add: field_simps)
    then have "\<bar>real m * 2 ^ E - x\<bar> = \<bar>(real m - x / 2 ^ E) * 2 ^ E\<bar>" by (simp only:)
    also have "\<dots> = \<bar>real m - x / 2 ^ E\<bar> * 2 ^ E" by (simp add: abs_mult)
    also have "\<dots> \<le> 1 / 2 * 2 ^ E" using err by (intro mult_right_mono) simp_all
    finally have 1: "\<bar>real (m * 2 ^ E) - x\<bar> \<le> 2 ^ E / 2" by simp
    have "(2::real) ^ E = 2 powi (L - 52)" using L52 by (simp add: E_def power_int_def)
    also have "\<dots> = 2 powi L / 2 powi 52" by (rule power_int_diff) simp
    finally have "(2::real) ^ E / 2 = 2 powi L / 2 ^ 53" by simp
    also have "\<dots> \<le> x / 2 ^ 53" using Lb(1) by (simp add: divide_right_mono)
    finally have 2: "(2::real) ^ E / 2 \<le> x / 2 ^ 53" .
    from 1 2 have "\<bar>real (m * 2 ^ E) - x\<bar> \<le> x / 2 ^ 53" by (rule order_trans)
    then have "\<bar>real (m * 2 ^ E) - x\<bar> \<le> max 1 (x / 2 ^ 53)" by (rule max.coboundedI2)
    then show ?thesis unfolding rd iof x_def by blast
  qed
qed

lemma float_value_real:
  "real_of_rat (float_value (Finite s m e)) = (if s then - 1 else 1) * (real m * 2 powi e)"
  by (simp add: power_int_def of_rat_mult of_rat_power of_rat_divide of_rat_minus
      of_rat_inverse power_inverse field_simps)

lemma pow10_split:
  assumes "d \<le> 22"
  shows "(10::int) ^ d = int (5 ^ d * 2 ^ d)" and "(5::nat) ^ d < 2 ^ 53"
    and "(5::nat) ^ d * 2 ^ d < 2 ^ 1023"
proof -
  have "(10::nat) ^ d = (5 * 2) ^ d" by simp
  also have "\<dots> = 5 ^ d * 2 ^ d" by (rule power_mult_distrib)
  finally have "int (10 ^ d) = int (5 ^ d * 2 ^ d)" by (simp only:)
  then show "(10::int) ^ d = int (5 ^ d * 2 ^ d)" by simp
  have "(5::nat) ^ d \<le> 5 ^ 22" using assms by (intro power_increasing) simp_all
  also have "\<dots> < 2 ^ 53" by simp
  finally show 5: "(5::nat) ^ d < 2 ^ 53" .
  have 2: "(2::nat) ^ d \<le> 2 ^ 22" using assms by (intro power_increasing) simp_all
  have "(5::nat) ^ d * 2 ^ d < 2 ^ 53 * 2 ^ 22"
    using 5 2 by (intro mult_less_le_imp_less) simp_all
  also have "\<dots> = (2::nat) ^ 75" by (simp only: power_add [symmetric]) simp
  also have "\<dots> < 2 ^ 1023" by (rule power_strict_increasing) simp_all
  finally show "(5::nat) ^ d * 2 ^ d < 2 ^ 1023" .
qed

lemma round_to_double_value_error:
  assumes d: "0 < d" and fin: "real n / real d < 2 ^ 1023"
  shows "\<exists>m' e'. round_to_double s n d = Finite s m' e'
    \<and> \<bar>real m' * 2 powi e' - real n / real d\<bar>
        \<le> max (1 / 2 ^ 1075) (real n / real d / 2 ^ 53)"
proof (cases "n = 0")
  case True
  have "round_to_double s n d = Finite s 0 0" using True by (simp add: round_to_double_def)
  moreover have "\<bar>real 0 * 2 powi 0 - real n / real d\<bar>
      \<le> max (1 / 2 ^ 1075) (real n / real d / 2 ^ 53)"
    using True by (simp add: max_def)
  ultimately show ?thesis by blast
next
  case False
  then have n: "0 < n" by simp
  define x where "x = real n / real d"
  define L where "L = binade n d"
  define e where "e = max (L - 52) (- 1074)"
  from binade_bounds [OF n d]
  have Lb: "2 powi L \<le> x" "x < 2 powi (L + 1)" unfolding L_def x_def by simp_all
  have half: "(2::real) powi (L - 53) \<le> x / 2 ^ 53"
  proof -
    have "(2::real) powi (L - 53) = 2 powi L / 2 powi 53" by (rule power_int_diff) simp
    also have "\<dots> = 2 powi L / 2 ^ 53" by simp
    also have "\<dots> \<le> x / 2 ^ 53" using Lb(1) by (simp add: divide_right_mono)
    finally show ?thesis .
  qed
  show ?thesis
  proof (cases "e < 0")
    case True
    define V where "V = (2::nat) ^ nat (- e)"
    define m where "m = round_half_even (n * V) d"
    have rd: "round_to_double s n d = Finite s m e"
      unfolding m_def V_def
      by (rule round_to_double_below [OF n _ True]) (simp add: e_def L_def)
    have V: "0 < real V" by (simp add: V_def)
    have pe: "(2::real) powi e = 1 / real V"
      using True by (simp add: V_def power_int_def field_simps)
    have "real (n * V) / real d = x * real V" by (simp add: x_def)
    with round_half_even_error [OF d, of "n * V"]
    have err: "\<bar>real m - x * real V\<bar> \<le> 1 / 2" by (simp add: m_def)
    have "(real m - x * real V) / real V = real m * (1 / real V) - x"
      using V by (simp add: field_simps)
    then have "\<bar>real m * (1 / real V) - x\<bar> = \<bar>(real m - x * real V) / real V\<bar>"
      by (simp only:)
    also have "\<dots> = \<bar>real m - x * real V\<bar> / real V" using V by (simp add: abs_divide)
    also have "\<dots> \<le> (1 / 2) / real V" using err V by (intro divide_right_mono) simp_all
    finally have 1: "\<bar>real m * 2 powi e - x\<bar> \<le> 2 powi e / 2" unfolding pe by simp
    have 2: "(2::real) powi e / 2 = 2 powi (e - 1)"
    proof -
      have "(2::real) powi (e - 1) = 2 powi e / 2 powi 1" by (rule power_int_diff) simp
      then show ?thesis by simp
    qed
    have 3: "(2::real) powi (e - 1) \<le> max (1 / 2 ^ 1075) (x / 2 ^ 53)"
    proof (cases "- 1074 \<le> L - 52")
      case True
      then have eq: "e - 1 = L - 53" by (simp add: e_def)
      from half show ?thesis unfolding eq by (rule max.coboundedI2)
    next
      case False
      then have "e - 1 = - 1075" by (simp add: e_def)
      then have "(2::real) powi (e - 1) = 2 powi (- 1075)" by (simp only:)
      also have "\<dots> = 1 / 2 powi 1075" by (rule power_int_minus_divide)
      also have "\<dots> = 1 / 2 ^ 1075" by simp
      finally have "(2::real) powi (e - 1) \<le> 1 / 2 ^ 1075" by (simp only: order_refl)
      then show ?thesis by (rule max.coboundedI1)
    qed
    from 1 have "\<bar>real m * 2 powi e - x\<bar> \<le> 2 powi (e - 1)" unfolding 2 .
    from this 3 have "\<bar>real m * 2 powi e - x\<bar> \<le> max (1 / 2 ^ 1075) (x / 2 ^ 53)"
      by (rule order_trans)
    with rd show ?thesis unfolding x_def by blast
  next
    case False
    then have L52: "52 \<le> L" by (simp add: e_def)
    have "(2::real) powi L < 2 powi 1023" using Lb(1) fin by (simp add: x_def)
    then have "L < 1023" by (rule power_int_le_imp_less_exp [of 2, rotated]) simp_all
    then have L1022: "L \<le> 1022" by simp
    define E where "E = nat (L - 52)"
    define m where "m = round_half_even n (d * 2 ^ E)"
    have rd: "round_to_double s n d = Finite s m (L - 52)"
      unfolding m_def E_def
      by (rule round_to_double_above [OF n _ L52 L1022]) (simp add: L_def)
    have pe: "(2::real) powi (L - 52) = 2 ^ E" using L52 by (simp add: E_def power_int_def)
    have dE: "0 < d * 2 ^ E" using d by simp
    have "real n / real (d * 2 ^ E) = x / 2 ^ E" by (simp add: x_def)
    with round_half_even_error [OF dE, of n]
    have err: "\<bar>real m - x / 2 ^ E\<bar> \<le> 1 / 2" by (simp add: m_def)
    have "(real m - x / 2 ^ E) * 2 ^ E = real m * 2 ^ E - x" by (simp add: field_simps)
    then have "\<bar>real m * 2 ^ E - x\<bar> = \<bar>(real m - x / 2 ^ E) * 2 ^ E\<bar>" by (simp only:)
    also have "\<dots> = \<bar>real m - x / 2 ^ E\<bar> * 2 ^ E" by (simp add: abs_mult)
    also have "\<dots> \<le> 1 / 2 * 2 ^ E" using err by (intro mult_right_mono) simp_all
    finally have 1: "\<bar>real m * 2 powi (L - 52) - x\<bar> \<le> 2 powi (L - 52) / 2"
      unfolding pe by simp
    have "(2::real) powi (L - 53) = 2 powi (L - 52) / 2 powi 1"
      using power_int_diff [of "2::real" "L - 52" 1] by simp
    then have 2: "(2::real) powi (L - 52) / 2 = 2 powi (L - 53)" by simp
    from 1 half have "\<bar>real m * 2 powi (L - 52) - x\<bar> \<le> x / 2 ^ 53"
      unfolding 2 by (rule order_trans)
    then have "\<bar>real m * 2 powi (L - 52) - x\<bar> \<le> max (1 / 2 ^ 1075) (x / 2 ^ 53)"
      by (rule max.coboundedI2)
    with rd show ?thesis unfolding x_def by blast
  qed
qed

lemma int_of_float_truncates:
  "int_of_float (Finite s m e) =
     Inr (if float_value (Finite s m e) < 0 then - \<lfloor>- float_value (Finite s m e)\<rfloor>
          else \<lfloor>float_value (Finite s m e)\<rfloor>)"
proof -
  define a :: rat where "a = of_nat m * (if 0 \<le> e then 2 ^ nat e else 1 / 2 ^ nat (- e))"
  define t :: int where "t = (if 0 \<le> e then int m * 2 ^ nat e else int m div 2 ^ nat (- e))"
  have a0: "0 \<le> a" by (simp add: a_def)
  have fl: "\<lfloor>a\<rfloor> = t"
  proof (cases "0 \<le> e")
    case True
    then have "a = of_int (int m * 2 ^ nat e)" by (simp add: a_def)
    then have "\<lfloor>a\<rfloor> = int m * 2 ^ nat e" by (simp only: floor_of_int)
    then show ?thesis using True by (simp add: t_def)
  next
    case False
    then have "a = of_nat m / of_nat (2 ^ nat (- e))" by (simp add: a_def)
    then have "\<lfloor>a\<rfloor> = int (m div 2 ^ nat (- e))" by (simp only: floor_divide_of_nat_eq)
    then show ?thesis using False by (simp add: t_def zdiv_int)
  qed
  have v: "float_value (Finite s m e) = (if s then - a else a)" by (simp add: a_def)
  have i: "int_of_float (Finite s m e) = Inr ((if s then - 1 else 1) * t)" by (simp add: t_def)
  show ?thesis
  proof (cases "s \<and> 0 < a")
    case True
    then show ?thesis unfolding v i using fl by simp
  next
    case False
    then have "\<not> (if s then - a else a) < 0" using a0 by auto
    moreover have "(if s then - 1 else 1) * t = \<lfloor>if s then - a else a\<rfloor>"
    proof (cases s)
      case True
      with False a0 have "a = 0" by simp
      with fl True show ?thesis by simp
    next
      case False
      then show ?thesis using fl by simp
    qed
    ultimately show ?thesis unfolding v i by simp
  qed
qed

section \<open>The claims\<close>

subsection \<open>C1: timeout and revert\<close>

text \<open>
  C1 states that a timeout of the confirmation and a reverted transaction give different
  messages (\<^verbatim>\<open>confirmation timeout\<close> and \<^verbatim>\<open>reverted\<close>). The code does not distinguish them:
  \<^verbatim>\<open>withdraw_usdt\<close> has one \<^verbatim>\<open>else\<close> branch for a missing receipt and for a receipt whose
  status is not 1. On the chain where no receipt is ever found and on the chain where the
  receipt has status 0, the call returns the same pair.
\<close>

theorem timeout_indistinguishable_from_revert:
  "fst (wait_for_transaction timeout_manager [0xab, 0xcd] 120 []) = Inr None
   \<and> fst (wait_for_transaction reverted_manager [0xab, 0xcd] 120 []) = Inr (Some \<lparr>status = 0\<rparr>)
   \<and> fst (withdraw_usdt example_config timeout_manager ''0xSource'' (Finite False 25 3) []) =
       Inr (False, ''Transaction failed or was reverted'')
   \<and> fst (withdraw_usdt example_config reverted_manager ''0xSource'' (Finite False 25 3) []) =
       Inr (False, ''Transaction failed or was reverted'')"
  by (simp add: run_eval)

text \<open>
  C1, as amended. Whenever the broadcast succeeded and the poller returns no receipt (the
  timeout) or a receipt whose status is not 1 (the revert), \<^verbatim>\<open>withdraw_usdt\<close> returns
  \<^verbatim>\<open>(False, "Transaction failed or was reverted")\<close>: the same result in both cases.
\<close>

theorem timeout_and_revert_same_result:
  "broadcasts (snd (withdraw_usdt cfg self from_wallet amount_usdt [])) = [raw] \<Longrightarrow>
   send_raw_transaction (w3 self) raw = Inr tx_hash \<Longrightarrow>
   fst (wait_for_transaction self tx_hash 120 lg) = Inr None
     \<or> (\<exists>rcpt. fst (wait_for_transaction self tx_hash 120 lg) = Inr (Some rcpt) \<and> status rcpt \<noteq> 1) \<Longrightarrow>
   fst (withdraw_usdt cfg self from_wallet amount_usdt []) =
     Inr (False, ''Transaction failed or was reverted'')"
proof -
  assume a: "broadcasts (snd (withdraw_usdt cfg self from_wallet amount_usdt [])) = [raw]"
    and b: "send_raw_transaction (w3 self) raw = Inr tx_hash"
    and c: "fst (wait_for_transaction self tx_hash 120 lg) = Inr None
     \<or> (\<exists>rcpt. fst (wait_for_transaction self tx_hash 120 lg) = Inr (Some rcpt) \<and> status rcpt \<noteq> 1)"
  from c have "returned (wait_for_transaction self tx_hash 120) = None
     \<or> (\<exists>rcpt. returned (wait_for_transaction self tx_hash 120) = Some rcpt \<and> status rcpt \<noteq> 1)"
    by (simp add: wait_for_transaction_returned)
  then show ?thesis
    unfolding withdraw_after_broadcast [OF a b] by auto
qed

theorem timeout_and_revert_same_result_witness:
  "broadcasts (snd (withdraw_usdt example_config timeout_manager ''0xSource''
      (Finite False 25 3) [])) = [[0xf8, 0x6b]]
   \<and> send_raw_transaction (w3 timeout_manager) [0xf8, 0x6b] = Inr [0xab, 0xcd]
   \<and> fst (wait_for_transaction timeout_manager [0xab, 0xcd] 120 []) = Inr None
   \<and> fst (withdraw_usdt example_config timeout_manager ''0xSource'' (Finite False 25 3) []) =
       Inr (False, ''Transaction failed or was reverted'')"
proof -
  have a: "broadcasts (snd (withdraw_usdt example_config timeout_manager ''0xSource''
      (Finite False 25 3) [])) = [[0xf8, 0x6b]]"
    by (simp add: run_eval)
  have b: "send_raw_transaction (w3 timeout_manager) [0xf8, 0x6b] = Inr [0xab, 0xcd]"
    by (simp add: run_eval)
  have c: "fst (wait_for_transaction timeout_manager [0xab, 0xcd] 120 []) = Inr None"
    by (simp add: run_eval)
  show ?thesis
    using timeout_and_revert_same_result [OF a b disjI1 [OF c]] a b c by simp
qed

subsection \<open>C2: the conversion to base units\<close>

text \<open>
  C2 states that the conversion \<^verbatim>\<open>int(amount_usdt * (10 ** USDT_DECIMALS))\<close> equals exactly
  the amount times \<open>10\<^sup>d\<close>. The product is a float, rounded to 53 bits before the truncation:
  with 18 decimals the amount 1.000244140625, which is the float \<open>4097 / 2\<^sup>1\<^sup>2\<close> exactly, is
  converted to 1000244140624999936 base units, and the exact product is the integer
  1000244140625000000.
\<close>

theorem conversion_inexact:
  "to_amount_wei example_config (Finite False 4097 (- 12)) = Inr 1000244140624999936 \<and>
   float_value (Finite False 4097 (- 12)) * 10 ^ USDT_DECIMALS example_config =
     1000244140625000000"
  by (simp add: float_eval example_config_def)

text \<open>
  C2, as amended. For a token precision \<open>d\<close> of at most 22 (so that \<open>10\<^sup>d\<close> is a float without
  rounding) and every finite amount whose product with \<open>10\<^sup>d\<close> is below \<open>2\<^sup>1\<^sup>0\<^sup>2\<^sup>3\<close> in
  magnitude: the product \<^verbatim>\<open>amount_usdt * (10 ** USDT_DECIMALS)\<close> is a finite float \<open>y\<close>, and the
  conversion returns an integer \<open>k\<close> and does not raise; \<open>k\<close> is \<open>y\<close> truncated towards zero;
  \<open>y\<close> differs from the exact product by at most the product divided by \<open>2\<^sup>5\<^sup>3\<close>, or by
  \<open>2\<^sup>-\<^sup>1\<^sup>0\<^sup>7\<^sup>5\<close> when that is larger; and \<open>k\<close> differs from the exact product by at most one
  base unit, or by at most the product divided by \<open>2\<^sup>5\<^sup>3\<close> when that is larger.
\<close>

theorem amount_conversion_truncates:
  assumes dec: "USDT_DECIMALS cfg \<le> 22"
    and fin: "\<bar>real_of_rat (float_value (Finite s m e))\<bar> * 10 ^ USDT_DECIMALS cfg < 2 ^ 1023"
  shows "\<exists>y k. float_mul_int (Finite s m e) (10 ^ USDT_DECIMALS cfg) = Inr y \<and>
      to_amount_wei cfg (Finite s m e) = Inr k \<and>
      k = (if float_value y < 0 then - \<lfloor>- float_value y\<rfloor> else \<lfloor>float_value y\<rfloor>) \<and>
      \<bar>real_of_rat (float_value y)
         - real_of_rat (float_value (Finite s m e)) * 10 ^ USDT_DECIMALS cfg\<bar>
        \<le> max (1 / 2 ^ 1075)
            (\<bar>real_of_rat (float_value (Finite s m e))\<bar> * 10 ^ USDT_DECIMALS cfg / 2 ^ 53) \<and>
      \<bar>real_of_int k - real_of_rat (float_value (Finite s m e)) * 10 ^ USDT_DECIMALS cfg\<bar>
        \<le> max 1 (\<bar>real_of_rat (float_value (Finite s m e))\<bar> * 10 ^ USDT_DECIMALS cfg / 2 ^ 53)"
proof -
  define D where "D = USDT_DECIMALS cfg"
  note ten = pow10_split [OF dec [folded D_def]]
  have pos5: "0 < (5::nat) ^ D" by simp
  from float_of_int_exact [OF pos5 ten(2) ten(3)]
  obtain m2 e2 where y: "float_of_int (10 ^ D) = Inr (Finite False m2 e2)"
    and yv: "real m2 * 2 powi e2 = real (5 ^ D * 2 ^ D)"
    unfolding ten(1) [symmetric] by blast
  have "real (5 ^ D * 2 ^ D) = real_of_int (int (5 ^ D * 2 ^ D))" by simp
  also have "\<dots> = 10 ^ D" unfolding ten(1) [symmetric] by simp
  finally have yv': "real m2 * 2 powi e2 = 10 ^ D" using yv by simp
  from float_mul_fraction [of s m e m2 e2]
  obtain n d where d: "0 < d"
    and fm: "float_mul (Finite s m e) (Finite False m2 e2) = round_to_double s n d"
    and nd: "real n / real d = (real m * 2 powi e) * (real m2 * 2 powi e2)"
    by blast
  define a where "a = real m * 2 powi e"
  have a0: "0 \<le> a" by (simp add: a_def)
  define x where "x = a * 10 ^ D"
  have ndx: "real n / real d = x" unfolding nd yv' x_def a_def ..
  have v: "real_of_rat (float_value (Finite s m e)) = (if s then - 1 else 1) * a"
    unfolding a_def by (rule float_value_real)
  have absv: "\<bar>real_of_rat (float_value (Finite s m e))\<bar> = a"
    unfolding v using a0 by simp
  have xfin: "real n / real d < 2 ^ 1023"
    using fin unfolding ndx x_def absv D_def .
  from round_to_double_value_error [OF d xfin, of s]
  obtain m' e' where rd: "round_to_double s n d = Finite s m' e'"
    and vb: "\<bar>real m' * 2 powi e' - x\<bar> \<le> max (1 / 2 ^ 1075) (x / 2 ^ 53)"
    unfolding ndx by blast
  from truncated_rounding_error [OF d xfin, of s]
  obtain k where k: "int_of_float (round_to_double s n d) = Inr ((if s then - 1 else 1) * int k)"
    and kb: "\<bar>real k - x\<bar> \<le> max 1 (x / 2 ^ 53)"
    unfolding ndx by blast
  let ?y = "Finite s m' e'" and ?k = "(if s then - 1 else 1) * int k"
  have prod: "float_mul_int (Finite s m e) (10 ^ USDT_DECIMALS cfg) = Inr ?y"
    by (simp only: float_mul_int_def D_def [symmetric] y fm rd sum.case)
  have conv: "to_amount_wei cfg (Finite s m e) = Inr ?k"
    by (simp only: to_amount_wei_def float_mul_int_def D_def [symmetric] y fm k sum.case)
  have trunc: "?k = (if float_value ?y < 0 then - \<lfloor>- float_value ?y\<rfloor> else \<lfloor>float_value ?y\<rfloor>)"
  proof -
    from k [unfolded rd, symmetric] int_of_float_truncates [of s m' e']
    have "(Inr ?k :: exn + int) =
        Inr (if float_value ?y < 0 then - \<lfloor>- float_value ?y\<rfloor> else \<lfloor>float_value ?y\<rfloor>)"
      by (rule trans)
    then show ?thesis by (rule Inr_inject)
  qed
  have "real_of_rat (float_value ?y) - (if s then - 1 else 1) * a * 10 ^ D =
      (if s then - 1 else 1) * (real m' * 2 powi e' - x)"
    unfolding float_value_real by (simp add: x_def algebra_simps)
  then have "\<bar>real_of_rat (float_value ?y) - (if s then - 1 else 1) * a * 10 ^ D\<bar>
      = \<bar>real m' * 2 powi e' - x\<bar>"
    by (simp add: abs_mult)
  with vb have yerr: "\<bar>real_of_rat (float_value ?y)
      - real_of_rat (float_value (Finite s m e)) * 10 ^ D\<bar>
      \<le> max (1 / 2 ^ 1075) (a * 10 ^ D / 2 ^ 53)"
    unfolding v x_def by (simp only:)
  have "real_of_int ?k - (if s then - 1 else 1) * a * 10 ^ D =
      (if s then - 1 else 1) * (real k - x)"
    by (simp add: x_def algebra_simps)
  then have "\<bar>real_of_int ?k - (if s then - 1 else 1) * a * 10 ^ D\<bar> = \<bar>real k - x\<bar>"
    by (simp add: abs_mult)
  with kb have result: "\<bar>real_of_int ?k -
      real_of_rat (float_value (Finite s m e)) * 10 ^ D\<bar> \<le> max 1 (a * 10 ^ D / 2 ^ 53)"
    unfolding v x_def by (simp only:)
  from prod conv trunc yerr result show ?thesis unfolding absv D_def by blast
qed

theorem amount_conversion_truncates_witness:
  "USDT_DECIMALS example_config \<le> 22 \<and>
   \<bar>real_of_rat (float_value (Finite False 4097 (- 12)))\<bar> * 10 ^ USDT_DECIMALS example_config
     < 2 ^ 1023 \<and>
   float_mul_int (Finite False 4097 (- 12)) (10 ^ USDT_DECIMALS example_config) =
     Inr (Finite False 7814407348632812 7) \<and>
   to_amount_wei example_config (Finite False 4097 (- 12)) = Inr 1000244140624999936 \<and>
   \<lfloor>float_value (Finite False 7814407348632812 7)\<rfloor> = 1000244140624999936 \<and>
   \<bar>real_of_rat (float_value (Finite False 7814407348632812 7))
      - real_of_rat (float_value (Finite False 4097 (- 12))) * 10 ^ USDT_DECIMALS example_config\<bar>
     \<le> max (1 / 2 ^ 1075) (\<bar>real_of_rat (float_value (Finite False 4097 (- 12)))\<bar>
         * 10 ^ USDT_DECIMALS example_config / 2 ^ 53) \<and>
   \<bar>real_of_int 1000244140624999936
      - real_of_rat (float_value (Finite False 4097 (- 12))) * 10 ^ USDT_DECIMALS example_config\<bar>
     \<le> max 1 (\<bar>real_of_rat (float_value (Finite False 4097 (- 12)))\<bar>
         * 10 ^ USDT_DECIMALS example_config / 2 ^ 53)"
  using amount_conversion_truncates [of example_config False 4097 "- 12"]
  by (simp add: float_eval example_config_def of_rat_divide)

subsection \<open>C3: the success message\<close>

text \<open>
  C3 states that the success message holds the amount formatted to the token's configured
  decimal precision. The format is \<^verbatim>\<open>{amount_usdt:.6f}\<close>, six places whatever
  \<^verbatim>\<open>USDT_DECIMALS\<close> is: with 18 configured decimals the message holds \<^verbatim>\<open>200.000000\<close> and
  not the amount with 18 places.
\<close>

theorem success_message_ignores_token_precision:
  "fst (withdraw_usdt example_config example_manager ''0xSource'' (Finite False 25 3) []) =
       Inr (True, [CHR 0xE2, CHR 0x9C, CHR 0x85] @ '' Successfully withdrawn 200.000000 USDT''
         @ [CHR 0x0A] @ [CHR 0xF0, CHR 0x9F, CHR 0x94, CHR 0x97]
         @ '' Transaction: https://bscscan.com/tx/abcd'')
   \<and> format_f (USDT_DECIMALS example_config) (Finite False 25 3) = ''200.000000000000000000''
   \<and> \<not> sublist (format_f (USDT_DECIMALS example_config) (Finite False 25 3))
        ([CHR 0xE2, CHR 0x9C, CHR 0x85] @ '' Successfully withdrawn 200.000000 USDT''
         @ [CHR 0x0A] @ [CHR 0xF0, CHR 0x9F, CHR 0x94, CHR 0x97]
         @ '' Transaction: https://bscscan.com/tx/abcd'')"
proof -
  let ?msg = "[CHR 0xE2, CHR 0x9C, CHR 0x85] @ '' Successfully withdrawn 200.000000 USDT''
         @ [CHR 0x0A] @ [CHR 0xF0, CHR 0x9F, CHR 0x94, CHR 0x97]
         @ '' Transaction: https://bscscan.com/tx/abcd''"
  have r: "fst (withdraw_usdt example_config example_manager ''0xSource'' (Finite False 25 3) []) =
       Inr (True, ?msg)"
    by (simp add: run_eval)
  have f: "format_f (USDT_DECIMALS example_config) (Finite False 25 3) = ''200.000000000000000000''"
    by (simp add: run_eval)
  have n: "\<not> sublist ''200.000000000000000000'' ?msg"
  proof
    assume "sublist ''200.000000000000000000'' ?msg"
    from sublist_filter_length [OF this, of "\<lambda>c. c = CHR ''0''"] show False
      by simp
  qed
  from r f n show ?thesis by simp
qed

text \<open>
  C3, as amended. Whenever the broadcast succeeded and the polled receipt has status 1,
  \<^verbatim>\<open>withdraw_usdt\<close> returns \<^verbatim>\<open>(True, message)\<close>, and the message contains the requested
  amount formatted with six decimal places and the URL \<^verbatim>\<open>https://bscscan.com/tx/\<close> followed by
  the hexadecimal digits of the transaction hash.
\<close>

theorem success_message_six_places:
  "broadcasts (snd (withdraw_usdt cfg self from_wallet amount_usdt [])) = [raw] \<Longrightarrow>
   send_raw_transaction (w3 self) raw = Inr tx_hash \<Longrightarrow>
   fst (wait_for_transaction self tx_hash 120 lg) = Inr (Some rcpt) \<Longrightarrow>
   status rcpt = 1 \<Longrightarrow>
   \<exists>message.
     fst (withdraw_usdt cfg self from_wallet amount_usdt []) = Inr (True, message)
     \<and> message = success_message amount_usdt (''https://bscscan.com/tx/'' @ hex tx_hash)
     \<and> sublist (format_f 6 amount_usdt) message
     \<and> sublist (''https://bscscan.com/tx/'' @ hex tx_hash) message"
proof -
  assume a: "broadcasts (snd (withdraw_usdt cfg self from_wallet amount_usdt [])) = [raw]"
    and b: "send_raw_transaction (w3 self) raw = Inr tx_hash"
    and c: "fst (wait_for_transaction self tx_hash 120 lg) = Inr (Some rcpt)"
    and d: "status rcpt = 1"
  let ?link = "''https://bscscan.com/tx/'' @ hex tx_hash"
  let ?m = "success_message amount_usdt ?link"
  from c have c': "returned (wait_for_transaction self tx_hash 120) = Some rcpt"
    by (simp add: wait_for_transaction_returned)
  have r: "fst (withdraw_usdt cfg self from_wallet amount_usdt []) = Inr (True, ?m)"
    unfolding withdraw_after_broadcast [OF a b] by (simp add: c' d)
  obtain ps ss where m1: "?m = ps @ format_f 6 amount_usdt @ ss"
    unfolding success_message_def by (metis append.assoc)
  obtain qs where m2: "?m = qs @ ?link"
    unfolding success_message_def by (metis append.assoc)
  have s1: "sublist (format_f 6 amount_usdt) ?m"
    by (subst m1) (rule sublist_appendI)
  have s2: "sublist ?link ?m"
    by (subst m2) (rule sublist_append_leftI)
  from r s1 s2 show ?thesis by blast
qed

theorem success_message_six_places_witness:
  "broadcasts (snd (withdraw_usdt example_config example_manager ''0xSource''
      (Finite False 25 3) [])) = [[0xf8, 0x6b]]
   \<and> send_raw_transaction (w3 example_manager) [0xf8, 0x6b] = Inr [0xab, 0xcd]
   \<and> fst (wait_for_transaction example_manager [0xab, 0xcd] 120 []) = Inr (Some \<lparr>status = 1\<rparr>)
   \<and> fst (withdraw_usdt example_config example_manager ''0xSource'' (Finite False 25 3) []) =
       Inr (True, [CHR 0xE2, CHR 0x9C, CHR 0x85] @ '' Successfully withdrawn 200.000000 USDT''
         @ [CHR 0x0A] @ [CHR 0xF0, CHR 0x9F, CHR 0x94, CHR 0x97]
         @ '' Transaction: https://bscscan.com/tx/abcd'')"
proof -
  have a: "broadcasts (snd (withdraw_usdt example_config example_manager ''0xSource''
      (Finite False 25 3) [])) = [[0xf8, 0x6b]]"
    by (simp add: run_eval)
  have b: "send_raw_transaction (w3 example_manager) [0xf8, 0x6b] = Inr [0xab, 0xcd]"
    by (simp add: run_eval)
  have c: "fst (wait_for_transaction example_manager [0xab, 0xcd] 120 []) =
      Inr (Some \<lparr>status = 1\<rparr>)"
    by (simp add: run_eval)
  have d: "status \<lparr>status = 1\<rparr> = 1" by simp
  have m: "success_message (Finite False 25 3) (''https://bscscan.com/tx/'' @ hex [0xab, 0xcd]) =
      [CHR 0xE2, CHR 0x9C, CHR 0x85] @ '' Successfully withdrawn 200.000000 USDT''
         @ [CHR 0x0A] @ [CHR 0xF0, CHR 0x9F, CHR 0x94, CHR 0x97]
         @ '' Transaction: https://bscscan.com/tx/abcd''"
    by (simp add: run_eval)
  from success_message_six_places [OF a b c d] m a b c show ?thesis
    by auto
qed

subsection \<open>C4: insufficient allowance\<close>

text \<open>
  C4 states that the call is refused whenever the live allowance is less than the amount, and
  that the number in the message equals the live allowance. The code compares, and reports,
  the float \<^verbatim>\<open>allowance_wei / (10 ** USDT_DECIMALS)\<close>. An allowance of \<open>10\<^sup>1\<^sup>8 - 1\<close> base units
  is less than the amount of one token, which is \<open>10\<^sup>1\<^sup>8\<close> base units; its quotient by
  \<open>10\<^sup>1\<^sup>8\<close> rounds to the float 1.0, the test \<^verbatim>\<open>allowance < amount_usdt\<close> is false, and the call
  builds, signs and broadcasts the transaction and returns \<^verbatim>\<open>(True, message)\<close>. And where the
  call is refused the message holds the float rounded to six decimal places: an allowance of
  0.1234567 tokens is reported as \<^verbatim>\<open>0.123457\<close>.
\<close>

theorem allowance_compared_and_reported_as_float:
  "allowance (w3 near_allowance_manager) ''0xSource'' ''0xSpender'' = Inr 999999999999999999
   \<and> (999999999999999999 / 10 ^ USDT_DECIMALS example_config :: rat)
       < float_value (Finite False 1 0)
   \<and> to_amount_wei example_config (Finite False 1 0) = Inr 1000000000000000000
   \<and> withdraw_usdt example_config near_allowance_manager ''0xSource'' (Finite False 1 0) [] =
     (Inr (True, success_message (Finite False 1 0) ''https://bscscan.com/tx/abcd''),
      [IsAddress ''0xSource'', Allowance ''0xSource'' ''0xSpender'', BalanceOf ''0xSource'',
       GetTransactionCount ''0xAgent'', EstimateGas, GasPrice, BuildTransaction,
       SignTransaction, SendRawTransaction [0xf8, 0x6b],
       GetTransactionReceipt [0xab, 0xcd], GetTransactionReceipt [0xab, 0xcd],
       GetTransactionReceipt [0xab, 0xcd], GetTransactionReceipt [0xab, 0xcd]])
   \<and> allowance (w3 small_allowance_manager) ''0xSource'' ''0xSpender'' = Inr 123456700000000000
   \<and> withdraw_usdt example_config small_allowance_manager ''0xSource'' (Finite False 1 0) [] =
     (Inr (False, ''Insufficient allowance. Available: 0.123457 USDT''),
      [IsAddress ''0xSource'', Allowance ''0xSource'' ''0xSpender''])
   \<and> (123457 / 10 ^ 6 :: rat) \<noteq> 123456700000000000 / 10 ^ USDT_DECIMALS example_config"
  by (simp add: run_eval near_allowance_manager_def)

text \<open>
  C4, as amended. For a valid source address and an amount whose conversion to base units
  does not raise: when the float \<^verbatim>\<open>allowance_wei / (10 ** USDT_DECIMALS)\<close>, the quotient of the
  allowance read from the chain rounded to double precision, compares less than the amount,
  \<^verbatim>\<open>withdraw_usdt\<close> returns \<^verbatim>\<open>(False, message)\<close> where the message holds that float rounded to
  six decimal places, and the only operations of the call are the address validation and
  the allowance query: no balance query, and no transaction is built, signed or broadcast.
\<close>

theorem insufficient_allowance_reported:
  assumes "is_address (w3 self) from_wallet0 = Inr True"
    and "to_checksum_address (w3 self) from_wallet0 = Inr from_wallet"
    and "to_amount_wei cfg amount_usdt = Inr amount_wei"
    and "to_checksum_address (w3 self) from_wallet = Inr checksum_owner"
    and "to_checksum_address (w3 self) (SPENDER_ADDRESS cfg) = Inr checksum_spender"
    and "allowance (w3 self) checksum_owner checksum_spender = Inr allowance_wei"
    and "int_truediv (int allowance_wei) (10 ^ USDT_DECIMALS cfg) = Inr allowance_usdt"
    and "float_lt allowance_usdt amount_usdt"
  shows "withdraw_usdt cfg self from_wallet0 amount_usdt [] =
     (Inr (False, ''Insufficient allowance. Available: '' @ format_f 6 allowance_usdt @ '' USDT''),
      [IsAddress from_wallet0, Allowance checksum_owner checksum_spender])"
  using assms
  by (simp add: withdraw_usdt_def withdraw_try_def validate_address_run get_allowance_def
        io_run cong: prod.case_cong_weak)

theorem insufficient_allowance_reported_witness:
  "float_lt (Finite False 8895992769862258 (- 56)) (Finite False 1 0)
   \<and> withdraw_usdt example_config small_allowance_manager ''0xSource'' (Finite False 1 0) [] =
     (Inr (False, ''Insufficient allowance. Available: ''
        @ format_f 6 (Finite False 8895992769862258 (- 56)) @ '' USDT''),
      [IsAddress ''0xSource'', Allowance ''0xSource'' ''0xSpender''])"
proof -
  have 1: "is_address (w3 small_allowance_manager) ''0xSource'' = Inr True"
    by (simp add: run_eval)
  have 2: "to_checksum_address (w3 small_allowance_manager) ''0xSource'' = Inr ''0xSource''"
    by (simp add: run_eval)
  have 3: "to_amount_wei example_config (Finite False 1 0) = Inr 1000000000000000000"
    by (simp add: run_eval)
  have 5: "to_checksum_address (w3 small_allowance_manager) (SPENDER_ADDRESS example_config) =
      Inr ''0xSpender''"
    by (simp add: run_eval)
  have 6: "allowance (w3 small_allowance_manager) ''0xSource'' ''0xSpender'' =
      Inr 123456700000000000"
    by (simp add: run_eval)
  have 7: "int_truediv (int 123456700000000000) (10 ^ USDT_DECIMALS example_config) =
      Inr (Finite False 8895992769862258 (- 56))"
    by (simp add: run_eval)
  have 8: "float_lt (Finite False 8895992769862258 (- 56)) (Finite False 1 0)"
    by (simp add: run_eval)
  show ?thesis
    using insufficient_allowance_reported [OF 1 2 3 2 5 6 7 8] 8 by simp
qed

subsection \<open>C5: insufficient balance, after the allowance\<close>

text \<open>
  C5 states that the call is refused whenever the live balance is less than the amount (the
  allowance being sufficient), and that the number in the message equals the live balance.
  The code compares, and reports, the float \<^verbatim>\<open>balance_wei / (10 ** USDT_DECIMALS)\<close>. A balance
  of \<open>10\<^sup>1\<^sup>8 - 1\<close> base units is less than the amount of one token, which is \<open>10\<^sup>1\<^sup>8\<close> base
  units; its quotient by \<open>10\<^sup>1\<^sup>8\<close> rounds to the float 1.0, the test
  \<^verbatim>\<open>balance < amount_usdt\<close> is false, and the call builds, signs and broadcasts the
  transaction and returns \<^verbatim>\<open>(True, message)\<close>. And where the call is refused the message holds
  the float rounded to six decimal places: a balance of one base unit (\<open>10\<^sup>-\<^sup>1\<^sup>8\<close> tokens) is
  reported as \<^verbatim>\<open>0.000000\<close>.
\<close>

theorem balance_compared_and_reported_as_float:
  "balanceOf (w3 near_balance_manager) ''0xSource'' = Inr 999999999999999999
   \<and> (999999999999999999 / 10 ^ USDT_DECIMALS example_config :: rat)
       < float_value (Finite False 1 0)
   \<and> to_amount_wei example_config (Finite False 1 0) = Inr 1000000000000000000
   \<and> withdraw_usdt example_config near_balance_manager ''0xSource'' (Finite False 1 0) [] =
     (Inr (True, success_message (Finite False 1 0) ''https://bscscan.com/tx/abcd''),
      [IsAddress ''0xSource'', Allowance ''0xSource'' ''0xSpender'', BalanceOf ''0xSource'',
       GetTransactionCount ''0xAgent'', EstimateGas, GasPrice, BuildTransaction,
       SignTransaction, SendRawTransaction [0xf8, 0x6b],
       GetTransactionReceipt [0xab, 0xcd], GetTransactionReceipt [0xab, 0xcd],
       GetTransactionReceipt [0xab, 0xcd], GetTransactionReceipt [0xab, 0xcd]])
   \<and> balanceOf (w3 dust_balance_manager) ''0xSource'' = Inr 1
   \<and> withdraw_usdt example_config dust_balance_manager ''0xSource'' (Finite False 1 0) [] =
     (Inr (False, ''Insufficient balance. Available: 0.000000 USDT''),
      [IsAddress ''0xSource'', Allowance ''0xSource'' ''0xSpender'', BalanceOf ''0xSource''])
   \<and> (0 / 10 ^ 6 :: rat) \<noteq> 1 / 10 ^ USDT_DECIMALS example_config"
  by (simp add: run_eval near_balance_manager_def)

text \<open>
  C5, as amended. For a valid source address, an amount whose conversion does not raise and
  an allowance that was read, all comparisons being made on the floats
  \<^verbatim>\<open>allowance_wei / (10 ** USDT_DECIMALS)\<close> and \<^verbatim>\<open>balance_wei / (10 ** USDT_DECIMALS)\<close>, the
  quotients rounded to double precision: when the float allowance compares less than the
  amount, the call ends after the allowance query and the balance is never queried; when it
  does not, and the float balance compares less than the amount, \<^verbatim>\<open>withdraw_usdt\<close> returns
  \<^verbatim>\<open>(False, message)\<close> where the message holds that float balance rounded to six decimal
  places, the balance query comes after the allowance query, and no transaction is built,
  signed or broadcast.
\<close>

theorem insufficient_balance_reported:
  assumes "is_address (w3 self) from_wallet0 = Inr True"
    and "to_checksum_address (w3 self) from_wallet0 = Inr from_wallet"
    and "to_amount_wei cfg amount_usdt = Inr amount_wei"
    and "to_checksum_address (w3 self) from_wallet = Inr checksum_owner"
    and "to_checksum_address (w3 self) (SPENDER_ADDRESS cfg) = Inr checksum_spender"
    and "allowance (w3 self) checksum_owner checksum_spender = Inr allowance_wei"
    and "int_truediv (int allowance_wei) (10 ^ USDT_DECIMALS cfg) = Inr allowance_usdt"
  shows "(float_lt allowance_usdt amount_usdt \<longrightarrow>
           snd (withdraw_usdt cfg self from_wallet0 amount_usdt []) =
             [IsAddress from_wallet0, Allowance checksum_owner checksum_spender])
     \<and> (\<not> float_lt allowance_usdt amount_usdt \<and>
          balanceOf (w3 self) checksum_owner = Inr balance_wei \<and>
          int_truediv (int balance_wei) (10 ^ USDT_DECIMALS cfg) = Inr balance \<and>
          float_lt balance amount_usdt \<longrightarrow>
           withdraw_usdt cfg self from_wallet0 amount_usdt [] =
             (Inr (False, ''Insufficient balance. Available: '' @ format_f 6 balance @ '' USDT''),
              [IsAddress from_wallet0, Allowance checksum_owner checksum_spender,
               BalanceOf checksum_owner]))"
  using assms
  by (simp add: withdraw_usdt_def withdraw_try_def validate_address_run get_allowance_def
        get_usdt_balance_def io_run cong: prod.case_cong_weak)

theorem insufficient_balance_reported_witness:
  "float_lt (Finite False 5192296858534828 (- 112)) (Finite False 1 0)
   \<and> withdraw_usdt example_config dust_balance_manager ''0xSource'' (Finite False 1 0) [] =
     (Inr (False, ''Insufficient balance. Available: ''
        @ format_f 6 (Finite False 5192296858534828 (- 112)) @ '' USDT''),
      [IsAddress ''0xSource'', Allowance ''0xSource'' ''0xSpender'', BalanceOf ''0xSource''])"
proof -
  have 1: "is_address (w3 dust_balance_manager) ''0xSource'' = Inr True"
    by (simp add: run_eval)
  have 2: "to_checksum_address (w3 dust_balance_manager) ''0xSource'' = Inr ''0xSource''"
    by (simp add: run_eval)
  have 3: "to_amount_wei example_config (Finite False 1 0) = Inr 1000000000000000000"
    by (simp add: run_eval)
  have 5: "to_checksum_address (w3 dust_balance_manager) (SPENDER_ADDRESS example_config) =
      Inr ''0xSpender''"
    by (simp add: run_eval)
  have 6: "allowance (w3 dust_balance_manager) ''0xSource'' ''0xSpender'' =
      Inr (500 * 10 ^ 18)"
    by (simp add: run_eval)
  have 7: "int_truediv (int (500 * 10 ^ 18)) (10 ^ USDT_DECIMALS example_config) =
      Inr (Finite False 8796093022208000 (- 44))"
    by (simp add: run_eval)
  have 8: "\<not> float_lt (Finite False 8796093022208000 (- 44)) (Finite False 1 0) \<and>
      balanceOf (w3 dust_balance_manager) ''0xSource'' = Inr 1 \<and>
      int_truediv (int 1) (10 ^ USDT_DECIMALS example_config) =
        Inr (Finite False 5192296858534828 (- 112)) \<and>
      float_lt (Finite False 5192296858534828 (- 112)) (Finite False 1 0)"
    by (simp add: run_eval)
  show ?thesis
    using insufficient_balance_reported [OF 1 2 3 2 5 6 7,
        where balance_wei = 1 and balance = "Finite False 5192296858534828 (- 112)"] 8
    by simp
qed

subsection \<open>C6: invalid address\<close>

text \<open>
  C6. When the source address fails validation (\<^verbatim>\<open>is_address\<close> answers False, or raises),
  \<^verbatim>\<open>withdraw_usdt\<close> returns \<^verbatim>\<open>(False, "Invalid wallet address")\<close> and the only operation of
  the call is the validation: neither the allowance nor the balance is queried.
\<close>

theorem invalid_address_rejected_before_queries:
  "fst (validate_address self from_wallet []) = Inr False \<Longrightarrow>
   withdraw_usdt cfg self from_wallet amount_usdt [] =
     (Inr (False, ''Invalid wallet address''), [IsAddress from_wallet])"
  by (simp add: withdraw_run cong: prod.case_cong_weak)

theorem invalid_address_rejected_before_queries_witness:
  "fst (validate_address example_manager ''0xBad'' []) = Inr False
   \<and> withdraw_usdt example_config example_manager ''0xBad'' (Finite False 25 3) [] =
     (Inr (False, ''Invalid wallet address''), [IsAddress ''0xBad''])"
proof -
  have h: "fst (validate_address example_manager ''0xBad'' []) = Inr False"
    by (simp add: run_eval)
  show ?thesis
    using h invalid_address_rejected_before_queries [OF h, of example_config "Finite False 25 3"]
    by simp
qed

subsection \<open>C7: no exception escapes, and failures give False\<close>

text \<open>
  C7. Whatever the client does, \<^verbatim>\<open>withdraw_usdt\<close> returns a pair \<^verbatim>\<open>(success, message)\<close> and
  never raises, and every failure gives \<^verbatim>\<open>(False, message)\<close>: the result is
  \<^verbatim>\<open>(True, message)\<close> only if the address validation answered True; the checksum conversions
  and the conversion of the amount returned; the allowance and the balance were read and
  neither float compares less than the amount; the nonce was read; the call was built and
  encoded; the transaction was built, signed and broadcast, each without raising; a lookup
  of the receipt returned the receipt that the poller hands back; and its status is 1. The
  message is then the success message. So a failure of any read, of the building, of the
  signature, of the broadcast or of the polling gives \<^verbatim>\<open>(False, message)\<close>. The two gas
  queries are not among these steps: \<^verbatim>\<open>get_gas_price\<close> and \<^verbatim>\<open>estimate_gas\<close> replace their
  failures by the configured defaults (C8) and the withdrawal goes on; and a lookup of the
  receipt that answers \<^verbatim>\<open>TransactionNotFound\<close> is repeated until the timeout.
\<close>

theorem withdraw_reports_failures:
  "(\<exists>success message.
      fst (withdraw_usdt cfg self from_wallet0 amount_usdt lg) = Inr (success, message)) \<and>
   (\<forall>message. fst (withdraw_usdt cfg self from_wallet0 amount_usdt lg) = Inr (True, message) \<longrightarrow>
      (\<exists>from_wallet amount_wei checksum_owner checksum_spender allowance_wei allowance_usdt
          balance_wei balance nonce transfer data transaction raw_transaction tx_hash rcpt j.
         is_address (w3 self) from_wallet0 = Inr True \<and>
         to_checksum_address (w3 self) from_wallet0 = Inr from_wallet \<and>
         to_amount_wei cfg amount_usdt = Inr amount_wei \<and>
         to_checksum_address (w3 self) from_wallet = Inr checksum_owner \<and>
         to_checksum_address (w3 self) (SPENDER_ADDRESS cfg) = Inr checksum_spender \<and>
         allowance (w3 self) checksum_owner checksum_spender = Inr allowance_wei \<and>
         int_truediv (int allowance_wei) (10 ^ USDT_DECIMALS cfg) = Inr allowance_usdt \<and>
         \<not> float_lt allowance_usdt amount_usdt \<and>
         balanceOf (w3 self) checksum_owner = Inr balance_wei \<and>
         int_truediv (int balance_wei) (10 ^ USDT_DECIMALS cfg) = Inr balance \<and>
         \<not> float_lt balance amount_usdt \<and>
         get_transaction_count (w3 self) (my_address self) = Inr nonce \<and>
         transferFrom (w3 self) from_wallet (my_address self) amount_wei = Inr transfer \<and>
         encode_transaction_data (w3 self) transfer = Inr data \<and>
         build_transaction (w3 self) transfer
           \<lparr>tx_from = my_address self, tx_nonce = nonce,
            tx_gas = returned (estimate_gas cfg self
              \<lparr>q_from = my_address self, q_to = USDT_ADDRESS cfg, q_data = data\<rparr>),
            tx_gasPrice = returned (get_gas_price cfg self)\<rparr> = Inr transaction \<and>
         sign_transaction (w3 self) transaction (PRIVATE_KEY cfg) = Inr raw_transaction \<and>
         send_raw_transaction (w3 self) raw_transaction = Inr tx_hash \<and>
         get_transaction_receipt (w3 self) tx_hash j = Inr rcpt \<and>
         returned (wait_for_transaction self tx_hash 120) = Some rcpt \<and>
         status rcpt = 1 \<and>
         message = success_message amount_usdt (''https://bscscan.com/tx/'' @ hex tx_hash)))"
proof (intro conjI allI impI)
  obtain r l where p: "withdraw_try cfg self from_wallet0 amount_usdt lg = (r, l)"
    by (cases "withdraw_try cfg self from_wallet0 amount_usdt lg")
  show "\<exists>success message.
      fst (withdraw_usdt cfg self from_wallet0 amount_usdt lg) = Inr (success, message)"
  proof (cases r)
    case (Inl err)
    then show ?thesis
      by (auto simp add: withdraw_usdt_def io_try_run p withdraw_except_def io_return_run)
  next
    case (Inr res)
    then show ?thesis
      by (cases res) (simp add: withdraw_usdt_def io_try_run p)
  qed
next
  fix message
  assume "fst (withdraw_usdt cfg self from_wallet0 amount_usdt lg) = Inr (True, message)"
  from withdraw_success_path [OF this]
  obtain from_wallet amount_wei allowance_usdt balance nonce transfer data transaction
      raw_transaction tx_hash rcpt
    where s: "is_address (w3 self) from_wallet0 = Inr True"
      "to_checksum_address (w3 self) from_wallet0 = Inr from_wallet"
      "to_amount_wei cfg amount_usdt = Inr amount_wei"
      "\<not> float_lt allowance_usdt amount_usdt"
      "\<not> float_lt balance amount_usdt"
      "get_transaction_count (w3 self) (my_address self) = Inr nonce"
      "transferFrom (w3 self) from_wallet (my_address self) amount_wei = Inr transfer"
      "encode_transaction_data (w3 self) transfer = Inr data"
      "build_transaction (w3 self) transfer
         \<lparr>tx_from = my_address self, tx_nonce = nonce,
          tx_gas = returned (estimate_gas cfg self
            \<lparr>q_from = my_address self, q_to = USDT_ADDRESS cfg, q_data = data\<rparr>),
          tx_gasPrice = returned (get_gas_price cfg self)\<rparr> = Inr transaction"
      "sign_transaction (w3 self) transaction (PRIVATE_KEY cfg) = Inr raw_transaction"
      "send_raw_transaction (w3 self) raw_transaction = Inr tx_hash"
      "returned (wait_for_transaction self tx_hash 120) = Some rcpt"
      "status rcpt = 1"
      "message = success_message amount_usdt (''https://bscscan.com/tx/'' @ hex tx_hash)"
      and al: "returned (get_allowance cfg self from_wallet) = Some allowance_usdt"
      and bal: "returned (get_usdt_balance cfg self from_wallet) = Some balance"
    by blast
  from al obtain checksum_owner checksum_spender allowance_wei
    where a: "to_checksum_address (w3 self) from_wallet = Inr checksum_owner"
      "to_checksum_address (w3 self) (SPENDER_ADDRESS cfg) = Inr checksum_spender"
      "allowance (w3 self) checksum_owner checksum_spender = Inr allowance_wei"
      "int_truediv (int allowance_wei) (10 ^ USDT_DECIMALS cfg) = Inr allowance_usdt"
    unfolding get_allowance_returned by blast
  from bal a(1) obtain balance_wei
    where b: "balanceOf (w3 self) checksum_owner = Inr balance_wei"
      "int_truediv (int balance_wei) (10 ^ USDT_DECIMALS cfg) = Inr balance"
    unfolding get_usdt_balance_returned by auto
  from wait_for_transaction_found [OF s(12)]
  obtain j where j: "get_transaction_receipt (w3 self) tx_hash j = Inr rcpt" by blast
  from s a b j
  show "\<exists>from_wallet amount_wei checksum_owner checksum_spender allowance_wei allowance_usdt
          balance_wei balance nonce transfer data transaction raw_transaction tx_hash rcpt j.
         is_address (w3 self) from_wallet0 = Inr True \<and>
         to_checksum_address (w3 self) from_wallet0 = Inr from_wallet \<and>
         to_amount_wei cfg amount_usdt = Inr amount_wei \<and>
         to_checksum_address (w3 self) from_wallet = Inr checksum_owner \<and>
         to_checksum_address (w3 self) (SPENDER_ADDRESS cfg) = Inr checksum_spender \<and>
         allowance (w3 self) checksum_owner checksum_spender = Inr allowance_wei \<and>
         int_truediv (int allowance_wei) (10 ^ USDT_DECIMALS cfg) = Inr allowance_usdt \<and>
         \<not> float_lt allowance_usdt amount_usdt \<and>
         balanceOf (w3 self) checksum_owner = Inr balance_wei \<and>
         int_truediv (int balance_wei) (10 ^ USDT_DECIMALS cfg) = Inr balance \<and>
         \<not> float_lt balance amount_usdt \<and>
         get_transaction_count (w3 self) (my_address self) = Inr nonce \<and>
         transferFrom (w3 self) from_wallet (my_address self) amount_wei = Inr transfer \<and>
         encode_transaction_data (w3 self) transfer = Inr data \<and>
         build_transaction (w3 self) transfer
           \<lparr>tx_from = my_address self, tx_nonce = nonce,
            tx_gas = returned (estimate_gas cfg self
              \<lparr>q_from = my_address self, q_to = USDT_ADDRESS cfg, q_data = data\<rparr>),
            tx_gasPrice = returned (get_gas_price cfg self)\<rparr> = Inr transaction \<and>
         sign_transaction (w3 self) transaction (PRIVATE_KEY cfg) = Inr raw_transaction \<and>
         send_raw_transaction (w3 self) raw_transaction = Inr tx_hash \<and>
         get_transaction_receipt (w3 self) tx_hash j = Inr rcpt \<and>
         returned (wait_for_transaction self tx_hash 120) = Some rcpt \<and>
         status rcpt = 1 \<and>
         message = success_message amount_usdt (''https://bscscan.com/tx/'' @ hex tx_hash)"
    by blast
qed

theorem withdraw_reports_failures_witness:
  "fst (withdraw_usdt example_config example_manager ''0xSource'' (Finite False 25 3) []) =
     Inr (True, success_message (Finite False 25 3) ''https://bscscan.com/tx/abcd'')
   \<and> (\<exists>raw_transaction tx_hash rcpt j.
         send_raw_transaction (w3 example_manager) raw_transaction = Inr tx_hash \<and>
         get_transaction_receipt (w3 example_manager) tx_hash j = Inr rcpt \<and>
         status rcpt = 1)"
proof -
  have h: "fst (withdraw_usdt example_config example_manager ''0xSource'' (Finite False 25 3) []) =
     Inr (True, success_message (Finite False 25 3) ''https://bscscan.com/tx/abcd'')"
    by (simp add: run_eval)
  from withdraw_reports_failures
    [of example_config example_manager "''0xSource''" "Finite False 25 3" "[]"] h
  show ?thesis by blast
qed

subsection \<open>C8: the gas price\<close>

text \<open>
  C8 states that a successful query gives the price times 1.2 rounded down. The product is
  taken with the float nearest to 1.2 and rounded to 53 bits before the truncation: for the
  price 3752999689475414 the method returns 4503599627370497, and six fifths of the price,
  rounded down, is 4503599627370496.
\<close>

theorem premium_exceeds_floor:
  "gas_price (w3 congested_manager) = Inr 3752999689475414 \<and>
   fst (get_gas_price example_config congested_manager []) = Inr 4503599627370497 \<and>
   \<lfloor>real 3752999689475414 * (6 / 5)\<rfloor> = 4503599627370496"
  by (simp add: get_gas_price_def io_run float_eval congested_manager_def with_chain_def
      example_manager_def example_chain_def)

text \<open>
  C8, as amended. \<^verbatim>\<open>get_gas_price\<close> always returns an integer and never raises; when the
  query of the gas price fails it returns the configured default \<^verbatim>\<open>DEFAULT_GAS_PRICE_GWEI\<close>
  times \<open>10\<^sup>9\<close>; and when the query answers a price below \<open>2\<^sup>5\<^sup>0\<close> it returns the price times
  1.2, rounded down to an integer.
\<close>

theorem gas_price_premium_or_default:
  "(\<exists>v. fst (get_gas_price cfg self lg) = Inr v) \<and>
   (\<forall>err. gas_price (w3 self) = Inl err \<longrightarrow>
      fst (get_gas_price cfg self lg) = Inr (int (DEFAULT_GAS_PRICE_GWEI cfg) * 1000000000)) \<and>
   (\<forall>p. gas_price (w3 self) = Inr p \<longrightarrow> p < 2 ^ 50 \<longrightarrow>
      fst (get_gas_price cfg self lg) = Inr \<lfloor>real p * (6 / 5)\<rfloor>)"
proof (intro conjI allI impI)
  show "\<exists>v. fst (get_gas_price cfg self lg) = Inr v"
    by (simp add: get_gas_price_def io_run split: sum.split)
next
  fix err assume "gas_price (w3 self) = Inl err"
  then show "fst (get_gas_price cfg self lg) = Inr (int (DEFAULT_GAS_PRICE_GWEI cfg) * 1000000000)"
    by (simp add: get_gas_price_def io_run to_wei_gwei_def)
next
  fix p assume q: "gas_price (w3 self) = Inr p" and lt: "p < 2 ^ 50"
  from premium_of_price(2) [OF lt] obtain x where x: "float_mul_int float_1_2 (int p) = Inr x"
    by blast
  from premium_of_price(1) [OF lt x]
  show "fst (get_gas_price cfg self lg) = Inr \<lfloor>real p * (6 / 5)\<rfloor>"
    by (simp add: get_gas_price_def io_run q x)
qed

theorem gas_price_premium_or_default_witness:
  "gas_price (w3 example_manager) = Inr 5000000000 \<and> (5000000000 :: nat) < 2 ^ 50 \<and>
   fst (get_gas_price example_config example_manager []) = Inr 6000000000 \<and>
   gas_price (w3 offline_manager) = Inl (OtherException, []) \<and>
   fst (get_gas_price example_config offline_manager []) = Inr 5000000000"
  using gas_price_premium_or_default [of example_config example_manager "[]"]
    gas_price_premium_or_default [of example_config offline_manager "[]"]
  by (simp add: example_manager_def example_chain_def example_config_def offline_manager_def
      with_chain_def)

subsection \<open>C9: at most one broadcast\<close>

text \<open>
  C9. A single call of \<^verbatim>\<open>withdraw_usdt\<close> submits a raw transaction to the network at most
  once: whatever the client answers, the log of the call holds at most one broadcast.
\<close>

theorem withdraw_broadcasts_at_most_once:
  "length (broadcasts (snd (withdraw_usdt cfg self from_wallet amount_usdt []))) \<le> 1"
  by (simp add: withdraw_run broadcasts_append get_allowance_broadcasts
        get_usdt_balance_broadcasts wait_for_transaction_broadcasts
        cong: prod.case_cong_weak split: sum.split option.split)

theorem withdraw_broadcasts_at_most_once_witness:
  "broadcasts (snd (withdraw_usdt example_config example_manager ''0xSource''
      (Finite False 25 3) [])) = [[0xf8, 0x6b]]
   \<and> length (broadcasts (snd (withdraw_usdt example_config example_manager ''0xSource''
      (Finite False 25 3) []))) \<le> 1"
  using withdraw_broadcasts_at_most_once
    [of example_config example_manager "''0xSource''" "Finite False 25 3"]
  by (simp add: run_eval)

subsection \<open>C10: the poller conflates errors and timeout\<close>

text \<open>
  C10. \<^verbatim>\<open>wait_for_transaction\<close> returns \<^verbatim>\<open>None\<close> when every lookup answers \<^verbatim>\<open>TransactionNotFound\<close>
  until the timeout, and it returns \<^verbatim>\<open>None\<close> as well when, after any number of \<^verbatim>\<open>TransactionNotFound\<close>
  answers, a lookup within the timeout raises any other exception.
\<close>

theorem wait_conflates_error_with_timeout:
  "((\<forall>j. \<exists>msg. get_transaction_receipt (w3 self) h j = Inl (TransactionNotFound, msg)) \<longrightarrow>
      fst (wait_for_transaction self h t lg) = Inr None)
   \<and> (\<forall>n err.
        (\<forall>j<n. \<exists>msg. get_transaction_receipt (w3 self) h j = Inl (TransactionNotFound, msg)) \<and>
        get_transaction_receipt (w3 self) h n = Inl err \<and> fst err \<noteq> TransactionNotFound \<and>
        (\<Sum>j<n. 2000 + lag (w3 self) j) < t * 1000 \<longrightarrow>
        fst (wait_for_transaction self h t lg) = Inr None)"
proof (intro conjI impI allI)
  assume "\<forall>j. \<exists>msg. get_transaction_receipt (w3 self) h j = Inl (TransactionNotFound, msg)"
  then have "fst (poll_receipt self h t 0 0 lg) = Inr None"
    using poll_receipt_all_not_found by blast
  then show "fst (wait_for_transaction self h t lg) = Inr None"
    by (cases "poll_receipt self h t 0 0 lg") (simp add: wait_for_transaction_def io_run)
next
  fix n err
  assume a: "(\<forall>j<n. \<exists>msg. get_transaction_receipt (w3 self) h j = Inl (TransactionNotFound, msg)) \<and>
        get_transaction_receipt (w3 self) h n = Inl err \<and> fst err \<noteq> TransactionNotFound \<and>
        (\<Sum>j<n. 2000 + lag (w3 self) j) < t * 1000"
  have "fst (poll_receipt self h t 0 0 lg) = Inl err"
    using a poll_receipt_hard_error [of n self h 0 err 0 t lg] by simp
  then show "fst (wait_for_transaction self h t lg) = Inr None"
    by (cases "poll_receipt self h t 0 0 lg") (simp add: wait_for_transaction_def io_run)
qed

theorem wait_conflates_error_with_timeout_witness:
  "fst (wait_for_transaction timeout_manager [0xab, 0xcd] 120 []) = Inr None
   \<and> get_transaction_receipt (w3 failing_lookup_manager) [0xab, 0xcd] 2 =
       Inl (OtherException, ''connection reset'')
   \<and> fst (wait_for_transaction failing_lookup_manager [0xab, 0xcd] 120 []) = Inr None"
proof -
  let ?h = "[0xab, 0xcd] :: bytes"
  have t: "\<forall>j. \<exists>msg. get_transaction_receipt (w3 timeout_manager) ?h j =
      Inl (TransactionNotFound, msg)"
    by (simp add: timeout_manager_def with_chain_def example_manager_def)
  have e: "(\<forall>j<2. \<exists>msg. get_transaction_receipt (w3 failing_lookup_manager) ?h j =
        Inl (TransactionNotFound, msg)) \<and>
      get_transaction_receipt (w3 failing_lookup_manager) ?h 2 =
        Inl (OtherException, ''connection reset'') \<and>
      fst (OtherException, ''connection reset'') \<noteq> TransactionNotFound \<and>
      (\<Sum>j<2. 2000 + lag (w3 failing_lookup_manager) j) < 120 * 1000"
    by (simp add: failing_lookup_manager_def with_chain_def example_manager_def
          example_chain_def)
  have 1: "fst (wait_for_transaction timeout_manager ?h 120 []) = Inr None"
    using wait_conflates_error_with_timeout [of timeout_manager ?h 120 "[]"] t by blast
  have 2: "fst (wait_for_transaction failing_lookup_manager ?h 120 []) = Inr None"
    using wait_conflates_error_with_timeout [of failing_lookup_manager ?h 120 "[]"] e by blast
  from 1 2 e show ?thesis by blast
qed

end
